theory Spec2Isabelle
  imports Main "HOL-Library.Word"
begin

section \<open>Common values: errors, decimal rendering, Go string helpers\<close>

text \<open>
  Errors are values. \<open>External\<close> stands for an error handed back by a capability the
  program only consumes (issue tracker, cluster accessor, git); the other constructors
  are the errors the program builds itself with \<open>fmt.Errorf\<close>, one per source site.
\<close>

datatype error =
    External string
  | NumError string string string
  | CannotGetRevision string error
  | RevisionMismatch int int
  | ProgressDeadlineExceeded string
  | DaemonSetNotRollingUpdate
  | OnDeleteHasNoStatus
  | RolloutStatusError error string string string string
  | FailedToAddLabels "string list" error
  | FailedToAddAssignees "string list" error
  | FailedToSetAssignees "string list" error
  | FailedToSetState error
  | FailedToSetIssueState error
  | NoMatchingIssues
  | NoMatchingPRs
  | ExpectedMarkers int string
  | CouldNotFetchGit error
  | CouldNotRetrieveGitLog error

text \<open>\<open>%d\<close> of \<open>fmt.Sprintf\<close>: decimal digits, a leading minus sign for negatives.\<close>

definition digitChar :: "nat \<Rightarrow> char" where
  "digitChar d = ''0123456789'' ! (d mod 10)"

fun digitsOf :: "nat \<Rightarrow> string" where
  "digitsOf n = (if n < 10 then [digitChar n] else digitsOf (n div 10) @ [digitChar (n mod 10)])"

declare digitsOf.simps [simp del]

definition showInt :: "int \<Rightarrow> string" where
  "showInt i = (if i < 0 then CHR ''-'' # digitsOf (nat (- i)) else digitsOf (nat i))"

text \<open>
  \<open>%q\<close> applied to a \<open>types.NamespacedName\<close> formats its \<open>String()\<close>, namespace and
  name joined by a slash, as a double-quoted Go string. The names and numerals
  quoted here hold no character that needs an escape, so the model only adds the quotes.
\<close>

record NamespacedName =
  Namespace :: string
  Name :: string

definition goQuote :: "string \<Rightarrow> string" where
  "goQuote s = CHR 0x22 # s @ [CHR 0x22]"

definition quoteName :: "NamespacedName \<Rightarrow> string" where
  "quoteName n = goQuote (Namespace n @ ''/'' @ Name n)"

text \<open>\<open>%v\<close> of a \<open>[]string\<close>: the elements between brackets, separated by spaces.\<close>

fun joinWith :: "string \<Rightarrow> string list \<Rightarrow> string" where
  "joinWith sep [] = []"
| "joinWith sep [x] = x"
| "joinWith sep (x # y # ys) = x @ sep @ joinWith sep (y # ys)"

definition showStrings :: "string list \<Rightarrow> string" where
  "showStrings xs = ''['' @ joinWith '' '' xs @ '']''"

text \<open>The source text of \<open>rolloutRegex\<close>, as \<open>%s\<close> prints a compiled expression.\<close>

definition rolloutPattern :: string where
  "rolloutPattern =
     CHR 0x5C # ''[pull-request'' @ CHR 0x5C # '']: #('' @ CHR 0x5C # ''d+)'' @ CHR 0x5C # ''s+''
       @ CHR 0x5C # ''[commit'' @ CHR 0x5C # '']: ([a-z0-9]+)'' @ CHR 0x5C # ''s+''"

text \<open>The message of an error (\<open>%v\<close>), following the format string of its source site.\<close>

fun errorText :: "error \<Rightarrow> string" where
  "errorText (External s) = s"
| "errorText (NumError fn input reason) =
     ''strconv.'' @ fn @ '': parsing '' @ goQuote input @ '': '' @ reason"
| "errorText (CannotGetRevision n e) =
     ''cannot get the revision of deployment '' @ goQuote n @ '': '' @ errorText e"
| "errorText (RevisionMismatch a b) =
     ''desired revision ('' @ showInt a @ '') is different from the running revision (''
       @ showInt b @ '')''"
| "errorText (ProgressDeadlineExceeded qn) = ''deployment '' @ qn @ '' exceeded its progress deadline''"
| "errorText DaemonSetNotRollingUpdate = ''Status is available only for RollingUpdate strategy type''"
| "errorText OnDeleteHasNoStatus = ''OnDelete updateStrategy does not have a Status`''"
| "errorText (RolloutStatusError e json ty n ns) =
     [CHR 0x27] @ errorText e @ [CHR 0x27] @ '' error getting rollout status for '' @ json
       @ ''\<newline>'' @ ty @ '' - '' @ n @ '' '' @ ns"
| "errorText (FailedToAddLabels ls e) = ''failed to add labels '' @ showStrings ls @ '' '' @ errorText e"
| "errorText (FailedToAddAssignees ls e) = ''failed to add labels '' @ showStrings ls @ '' '' @ errorText e"
| "errorText (FailedToSetAssignees ls e) = ''failed to set assignees '' @ showStrings ls @ '' '' @ errorText e"
| "errorText (FailedToSetState e) = ''failed to set state '' @ errorText e"
| "errorText (FailedToSetIssueState e) = ''failed to set issue state '' @ errorText e"
| "errorText NoMatchingIssues = ''no matching issues found''"
| "errorText NoMatchingPRs = ''no matching PRs found''"
| "errorText (ExpectedMarkers num body) =
     ''Expected '' @ rolloutPattern @ '' prefix in '' @ showInt num @ '' IssueNum body, got '' @ body"
| "errorText (CouldNotFetchGit e) = ''could not fetch git '' @ errorText e"
| "errorText (CouldNotRetrieveGitLog e) = ''could not retrieve git log '' @ errorText e"

text \<open>\<open>strings.TrimSpace\<close> on the ASCII white space characters.\<close>

definition isSpace :: "char \<Rightarrow> bool" where
  "isSpace c = (c = CHR '' '' \<or> c = CHR 0x09 \<or> c = CHR 0x0A \<or> c = CHR 0x0B \<or> c = CHR 0x0C \<or> c = CHR 0x0D)"

definition TrimSpace :: "string \<Rightarrow> string" where
  "TrimSpace s = rev (dropWhile isSpace (rev (dropWhile isSpace s)))"

text \<open>
  \<open>strconv.ParseInt(s, 10, 64)\<close> and \<open>strconv.Atoi\<close> (a 64-bit \<open>int\<close>): an optional sign,
  then one or more decimal digits; a value outside the signed 64-bit range is an error.
\<close>

definition isDigit :: "char \<Rightarrow> bool" where
  "isDigit c = (c \<in> set ''0123456789'')"

definition digitVal :: "char \<Rightarrow> nat" where
  "digitVal c = of_char c - 48"

definition decimalValue :: "string \<Rightarrow> nat" where
  "decimalValue ds = foldl (\<lambda>acc c. 10 * acc + digitVal c) 0 ds"

definition parseUnsigned :: "string \<Rightarrow> nat option" where
  "parseUnsigned ds = (if ds \<noteq> [] \<and> list_all isDigit ds then Some (decimalValue ds) else None)"

definition ParseInt :: "string \<Rightarrow> string \<Rightarrow> error + int" where
  "ParseInt fn s =
     (case s of
        [] \<Rightarrow> Inl (NumError fn s ''invalid syntax'')
      | c # r \<Rightarrow>
          (if c = CHR ''-'' then
             (case parseUnsigned r of
                None \<Rightarrow> Inl (NumError fn s ''invalid syntax'')
              | Some n \<Rightarrow>
                  if n \<le> 2 ^ 63 then Inr (- int n) else Inl (NumError fn s ''value out of range''))
           else
             (case parseUnsigned (if c = CHR ''+'' then r else s) of
                None \<Rightarrow> Inl (NumError fn s ''invalid syntax'')
              | Some n \<Rightarrow>
                  if n < 2 ^ 63 then Inr (int n) else Inl (NumError fn s ''value out of range''))))"

definition Atoi :: "string \<Rightarrow> error + int" where
  "Atoi s = ParseInt ''Atoi'' s"

section \<open>RolloutStatusEngine (pkg/rollout/rolloutstatus.go)\<close>

text \<open>
  The workload objects carry the fields the status functions read. Replica counts are
  \<open>int32\<close> and generations \<open>int64\<close>: machine words, compared as signed values, with
  wrapping subtraction. An optional (pointer) field is an \<open>option\<close>.
\<close>

record DeploymentCondition =
  condType :: string
  condReason :: string

record Deployment =
  depName :: string
  depAnnotations :: "(string \<times> string) list"
  depGeneration :: "64 word"
  depSpecReplicas :: "32 word option"
  depObservedGeneration :: "64 word"
  depReplicas :: "32 word"
  depUpdatedReplicas :: "32 word"
  depAvailableReplicas :: "32 word"
  depConditions :: "DeploymentCondition list"

record DaemonSet =
  dsStrategyType :: string
  dsGeneration :: "64 word"
  dsObservedGeneration :: "64 word"
  dsUpdatedNumberScheduled :: "32 word"
  dsDesiredNumberScheduled :: "32 word"
  dsNumberAvailable :: "32 word"

record StatefulSet =
  stsStrategyType :: string
  stsRollingUpdate :: "32 word option option"
  stsGeneration :: "64 word"
  stsSpecReplicas :: "32 word option"
  stsObservedGeneration :: "64 word"
  stsReadyReplicas :: "32 word"
  stsUpdatedReplicas :: "32 word"
  stsCurrentReplicas :: "32 word"
  stsUpdateRevision :: string
  stsCurrentRevision :: string

text \<open>
  The cluster status accessor (\<open>client.Client.Get\<close>) as the answers it gives: the decoded
  object or an error, per kind and namespaced name.
\<close>

record Cluster =
  getDeployment :: "NamespacedName \<Rightarrow> error + Deployment"
  getDaemonSet :: "NamespacedName \<Rightarrow> error + DaemonSet"
  getStatefulSet :: "NamespacedName \<Rightarrow> error + StatefulSet"

definition TimedOutReason :: string where
  "TimedOutReason = ''ProgressDeadlineExceeded''"

definition OnDeleteStatefulSetStrategyType :: string where
  "OnDeleteStatefulSetStrategyType = ''OnDelete''"

definition RollingUpdateStatefulSetStrategyType :: string where
  "RollingUpdateStatefulSetStrategyType = ''RollingUpdate''"

definition RollingUpdateDaemonSetStrategyType :: string where
  "RollingUpdateDaemonSetStrategyType = ''RollingUpdate''"

definition RevisionAnnotation :: string where
  "RevisionAnnotation = ''deployment.kubernetes.io/revision''"

definition DeploymentProgressing :: string where
  "DeploymentProgressing = ''Progressing''"

definition Revision :: "Deployment \<Rightarrow> error + int" where
  "Revision d =
     (case map_of (depAnnotations d) RevisionAnnotation of
        None \<Rightarrow> Inr 0
      | Some v \<Rightarrow> ParseInt ''ParseInt'' v)"

fun GetDeploymentCondition :: "DeploymentCondition list \<Rightarrow> string \<Rightarrow> DeploymentCondition option" where
  "GetDeploymentCondition [] t = None"
| "GetDeploymentCondition (c # cs) t = (if condType c = t then Some c else GetDeploymentCondition cs t)"

text \<open>A status result is Go's triple \<open>(string, bool, error)\<close>.\<close>

type_synonym status_result = "string \<times> bool \<times> error option"

text \<open>The replica comparisons of \<open>DeploymentStatusViewer.Status\<close>, in source order.\<close>

definition deploymentReplicas :: "NamespacedName \<Rightarrow> Deployment \<Rightarrow> status_result" where
  "deploymentReplicas name d =
     (if (case depSpecReplicas d of
            None \<Rightarrow> False
          | Some r \<Rightarrow> sint (depUpdatedReplicas d) < sint r) then
        (''Waiting for deployment '' @ quoteName name @ '' rollout to finish: ''
           @ showInt (sint (depUpdatedReplicas d)) @ '' out of ''
           @ showInt (sint (the (depSpecReplicas d)))
           @ '' new replicas have been updated...\<newline>'', False, None)
      else if sint (depUpdatedReplicas d) < sint (depReplicas d) then
        (''Waiting for deployment '' @ quoteName name @ '' rollout to finish: ''
           @ showInt (sint (depReplicas d - depUpdatedReplicas d))
           @ '' old replicas are pending termination...\<newline>'', False, None)
      else if sint (depAvailableReplicas d) < sint (depUpdatedReplicas d) then
        (''Waiting for deployment '' @ quoteName name @ '' rollout to finish: ''
           @ showInt (sint (depAvailableReplicas d)) @ '' of ''
           @ showInt (sint (depUpdatedReplicas d))
           @ '' updated replicas are available...\<newline>'', False, None)
      else (''deployment '' @ quoteName name @ '' successfully rolled out\<newline>'', True, None))"

definition deploymentObserved :: "NamespacedName \<Rightarrow> Deployment \<Rightarrow> status_result" where
  "deploymentObserved name d =
     (if sint (depGeneration d) \<le> sint (depObservedGeneration d) then
        (case GetDeploymentCondition (depConditions d) DeploymentProgressing of
           Some cond \<Rightarrow>
             if condReason cond = TimedOutReason then
               ('''', False, Some (ProgressDeadlineExceeded (quoteName name)))
             else deploymentReplicas name d
         | None \<Rightarrow> deploymentReplicas name d)
      else (''Waiting for deployment spec update to be observed...\<newline>'', False, None))"

definition DeploymentStatus :: "Cluster \<Rightarrow> NamespacedName \<Rightarrow> int \<Rightarrow> status_result" where
  "DeploymentStatus c name revision =
     (case getDeployment c name of
        Inl err \<Rightarrow> ('''', False, Some err)
      | Inr d \<Rightarrow>
          if revision > 0 then
            (case Revision d of
               Inl err \<Rightarrow> ('''', False, Some (CannotGetRevision (depName d) err))
             | Inr deploymentRev \<Rightarrow>
                 if revision \<noteq> deploymentRev then
                   ('''', False, Some (RevisionMismatch revision deploymentRev))
                 else deploymentObserved name d)
          else deploymentObserved name d)"

definition DaemonSetStatus :: "Cluster \<Rightarrow> NamespacedName \<Rightarrow> int \<Rightarrow> status_result" where
  "DaemonSetStatus c name revision =
     (case getDaemonSet c name of
        Inl err \<Rightarrow> ('''', False, Some err)
      | Inr daemon \<Rightarrow>
          if dsStrategyType daemon \<noteq> RollingUpdateDaemonSetStrategyType then
            ('''', True, Some DaemonSetNotRollingUpdate)
          else if sint (dsGeneration daemon) \<le> sint (dsObservedGeneration daemon) then
            (if sint (dsUpdatedNumberScheduled daemon) < sint (dsDesiredNumberScheduled daemon) then
               (''Waiting for daemon set '' @ quoteName name @ '' rollout to finish: ''
                  @ showInt (sint (dsUpdatedNumberScheduled daemon)) @ '' out of ''
                  @ showInt (sint (dsDesiredNumberScheduled daemon))
                  @ '' new pods have been updated...\<newline>'', False, None)
             else if sint (dsNumberAvailable daemon) < sint (dsDesiredNumberScheduled daemon) then
               (''Waiting for daemon set '' @ quoteName name @ '' rollout to finish: ''
                  @ showInt (sint (dsNumberAvailable daemon)) @ '' of ''
                  @ showInt (sint (dsDesiredNumberScheduled daemon))
                  @ '' updated pods are available...\<newline>'', False, None)
             else (''daemon set '' @ quoteName name @ '' successfully rolled out\<newline>'', True, None))
          else (''Waiting for daemon set spec update to be observed...\<newline>'', False, None))"

text \<open>
  \<open>stsRollingUpdate\<close> is the pointer \<open>Spec.UpdateStrategy.RollingUpdate\<close>; inside it the
  pointer \<open>Partition\<close>.
\<close>

definition statefulSetPartitioned :: "StatefulSet \<Rightarrow> status_result" where
  "statefulSetPartitioned sts =
     (if (case (stsSpecReplicas sts, stsRollingUpdate sts) of
            (Some r, Some (Some p)) \<Rightarrow> sint (stsUpdatedReplicas sts) < sint (r - p)
          | _ \<Rightarrow> False) then
        (''Waiting for partitioned roll out to finish: ''
           @ showInt (sint (stsUpdatedReplicas sts)) @ '' out of ''
           @ showInt (sint (the (stsSpecReplicas sts) - the (the (stsRollingUpdate sts))))
           @ '' new pods have been updated...\<newline>'', False, None)
      else
        (''partitioned roll out complete: '' @ showInt (sint (stsUpdatedReplicas sts))
           @ '' new pods have been updated...\<newline>'', True, None))"

definition StatefulSetStatus :: "Cluster \<Rightarrow> NamespacedName \<Rightarrow> int \<Rightarrow> status_result" where
  "StatefulSetStatus c name revision =
     (case getStatefulSet c name of
        Inl err \<Rightarrow> ('''', False, Some err)
      | Inr sts \<Rightarrow>
          if stsStrategyType sts = OnDeleteStatefulSetStrategyType then
            ('''', True, Some OnDeleteHasNoStatus)
          else if stsObservedGeneration sts = 0
                  \<or> sint (stsObservedGeneration sts) < sint (stsGeneration sts) then
            (''Waiting for statefulset spec update to be observed...\<newline>'', False, None)
          else if (case stsSpecReplicas sts of
                     None \<Rightarrow> False
                   | Some r \<Rightarrow> sint (stsReadyReplicas sts) < sint r) then
            (''Waiting for '' @ showInt (sint (the (stsSpecReplicas sts) - stsReadyReplicas sts))
               @ '' pods to be ready...\<newline>'', False, None)
          else if stsStrategyType sts = RollingUpdateStatefulSetStrategyType
                  \<and> stsRollingUpdate sts \<noteq> None then
            statefulSetPartitioned sts
          else if stsUpdateRevision sts \<noteq> stsCurrentRevision sts then
            (''waiting for statefulset rolling update to complete ''
               @ showInt (sint (stsUpdatedReplicas sts)) @ '' pods at revision ''
               @ stsUpdateRevision sts @ ''...\<newline>'', False, None)
          else
            (''statefulset rolling update complete '' @ showInt (sint (stsCurrentReplicas sts))
               @ '' pods at revision '' @ stsCurrentRevision sts @ ''...\<newline>'', True, None))"

text \<open>
  \<open>GetStatusViewer\<close> switches on the Go type of the decoded object. The types with a case
  of their own are constructors; every other decoded type is \<open>OtherKind\<close> with its name.
\<close>

datatype ObjectType =
    ExtensionsV1beta1Deployment
  | AppsV1beta1Deployment
  | AppsV1beta2Deployment
  | AppsV1Deployment
  | AppsV1beta1StatefulSet
  | AppsV1beta2StatefulSet
  | AppsV1StatefulSet
  | ExtensionsV1beta1DaemonSet
  | AppsV1beta2DaemonSet
  | AppsV1DaemonSet
  | Unstructured
  | OtherKind string

datatype StatusViewer = DeploymentStatusViewer | StatefulSetStatusViewer | DaemonSetStatusViewer

fun GetStatusViewer :: "ObjectType \<Rightarrow> StatusViewer option" where
  "GetStatusViewer ExtensionsV1beta1Deployment = Some DeploymentStatusViewer"
| "GetStatusViewer AppsV1beta1Deployment = Some DeploymentStatusViewer"
| "GetStatusViewer AppsV1beta2Deployment = Some DeploymentStatusViewer"
| "GetStatusViewer AppsV1Deployment = Some DeploymentStatusViewer"
| "GetStatusViewer AppsV1beta1StatefulSet = Some StatefulSetStatusViewer"
| "GetStatusViewer AppsV1beta2StatefulSet = Some StatefulSetStatusViewer"
| "GetStatusViewer AppsV1StatefulSet = Some StatefulSetStatusViewer"
| "GetStatusViewer ExtensionsV1beta1DaemonSet = Some DaemonSetStatusViewer"
| "GetStatusViewer AppsV1beta2DaemonSet = Some DaemonSetStatusViewer"
| "GetStatusViewer AppsV1DaemonSet = Some DaemonSetStatusViewer"
| "GetStatusViewer Unstructured = None"
| "GetStatusViewer (OtherKind k) = None"

fun Status :: "StatusViewer \<Rightarrow> Cluster \<Rightarrow> NamespacedName \<Rightarrow> int \<Rightarrow> status_result" where
  "Status DeploymentStatusViewer c name revision = DeploymentStatus c name revision"
| "Status StatefulSetStatusViewer c name revision = StatefulSetStatus c name revision"
| "Status DaemonSetStatusViewer c name revision = DaemonSetStatus c name revision"

section \<open>ApplyOrchestrator (pkg/applier/apply.go)\<close>

text \<open>
  Modelled from the spec: the declarations of \<open>rollout.Rollouts\<close>, \<open>rollout.Rollout\<close> and of
  the object \<open>rollout.ParseObject\<close> returns are not among the sources. The records hold the
  fields apply.go reads and writes (the spec's ManifestObject, Rollout and RolloutSet);
  \<open>oDisplay\<close> is what the method \<open>Display()\<close> returns and \<open>oTypeName\<close> what \<open>%T\<close> prints.
\<close>

record RolloutObject =
  oRaw :: string
  oJSON :: string
  oObject :: ObjectType
  oTypeName :: string
  oNamespacedName :: NamespacedName
  oDisplay :: string
  oApplyStatus :: string
  oRolloutStatus :: string
  oRolloutStatusHistory :: "string list"
  oDone :: bool

record Rollout =
  roPath :: string
  roStatus :: string
  roIcon :: string
  roObjects :: "RolloutObject list"

record Rollouts =
  rosName :: string
  rosStatus :: string
  rosIcon :: string
  rosRollouts :: "Rollout list"

definition doneIcon :: string where
  "doneIcon = ''![done](https://material.io/tools/icons/static/icons/twotone-done-24px.svg)''"

definition inProgressIcon :: string where
  "inProgressIcon = ''![inprogress](https://material.io/tools/icons/static/icons/twotone-cached-24px.svg)''"

subsection \<open>The comment body: \<open>issueTemplateBody\<close> executed by text/template\<close>

definition renderHistory :: "string list \<Rightarrow> string" where
  "renderHistory hs = concat (map (\<lambda>h. ''    - '' @ h @ ''\<newline>'') hs)"

definition renderObject :: "RolloutObject \<Rightarrow> string" where
  "renderObject obj =
     ''\<newline>- ['' @ (if oDone obj then ''x'' else '' '') @ ''] '' @ oDisplay obj @ ''\<newline>''
       @ (if oApplyStatus obj \<noteq> [] then ''  - **apply:** `'' @ oApplyStatus obj @ ''`\<newline>'' else [])
       @ (if oRolloutStatus obj \<noteq> [] then
            ''  - **rollout:** `'' @ oRolloutStatus obj @ ''`\<newline>''
              @ renderHistory (oRolloutStatusHistory obj) @ ''\<newline>''
          else [])"

definition renderRollout :: "Rollout \<Rightarrow> string" where
  "renderRollout ro =
     ''### '' @ roIcon ro @ '' `'' @ roPath ro @ ''` - *'' @ roStatus ro @ ''*\<newline>\<newline>''
       @ concat (map renderObject (roObjects ro)) @ ''\<newline>---\<newline>''"

definition issueTemplate :: "Rollouts \<Rightarrow> string" where
  "issueTemplate ros =
     ''\<newline>## '' @ rosIcon ros @ '' '' @ rosName ros @ '' - *'' @ rosStatus ros @ ''*\<newline>---\<newline>\<newline>''
       @ concat (map renderRollout (rosRollouts ros)) @ ''\<newline>''"

text \<open>
  \<open>GitManager.UpdateComment\<close> puts the prefix \<open>[rollout]: name\<close> in front of a body that
  does not start with it, then edits the remote comment.
\<close>

definition HasPrefix :: "string \<Rightarrow> string \<Rightarrow> bool" where
  "HasPrefix s p = (take (length p) s = p)"

definition commentPrefix :: "string \<Rightarrow> string" where
  "commentPrefix name = ''[rollout]: '' @ name"

definition commentBody :: "string \<Rightarrow> Rollouts \<Rightarrow> string" where
  "commentBody name ros =
     (let body = issueTemplate ros; expected = commentPrefix name
      in if HasPrefix body expected then body else expected @ ''\<newline>\<newline>'' @ body)"

subsection \<open>Polling\<close>

text \<open>
  What one pass of a poll loop consumes from outside: the cluster as the status accessor
  answers during the pass, the formatted time \<open>time.Now().Format(time.RFC822)\<close>, and
  the answer of the issue tracker to an edit of the comment with a given body.
\<close>

record PollEnv =
  cluster :: Cluster
  now :: string
  editComment :: "string \<Rightarrow> error option"

definition historyLine :: "string \<Rightarrow> string \<Rightarrow> string" where
  "historyLine t status = ''*'' @ t @ ''* - `'' @ status @ ''`''"

text \<open>
  The body of the inner polling loop for an object that has a viewer; the sequential and
  the parallel loop differ only in the value assigned to \<open>o.Done\<close> (\<open>d\<close> in the first,
  the loop's \<open>done\<close> in the second), which is the argument \<open>flag\<close> applied to \<open>d\<close>.
  \<open>view\<close> rebuilds the whole rollout set around the object, for rendering. The result
  is the error returned (if any), the object, \<open>d\<close>, and the bodies sent to the tracker.
\<close>

definition pollObject ::
  "string \<Rightarrow> PollEnv \<Rightarrow> (RolloutObject \<Rightarrow> Rollouts) \<Rightarrow> (bool \<Rightarrow> bool) \<Rightarrow> StatusViewer \<Rightarrow> RolloutObject
     \<Rightarrow> error option \<times> RolloutObject \<times> bool \<times> string list" where
  "pollObject name e view flag viewer obj =
     (case Status viewer (cluster e) (oNamespacedName obj) 0 of
        (status0, d, err) \<Rightarrow>
          (let status = TrimSpace status0;
               o1 = obj\<lparr>oDone := flag d\<rparr>
           in case err of
                Some er \<Rightarrow>
                  (let o2 = o1\<lparr>oRolloutStatus := ''error: '' @ errorText er\<rparr>
                   in (Some (RolloutStatusError er (oJSON obj) (oTypeName obj)
                               (Name (oNamespacedName obj)) (Namespace (oNamespacedName obj))),
                       o2, d, [commentBody name (view o2)]))
              | None \<Rightarrow>
                  if oRolloutStatus o1 \<noteq> status then
                    (let o2 = o1\<lparr>oRolloutStatus := status,
                                 oRolloutStatusHistory :=
                                   oRolloutStatusHistory o1 @ [historyLine (now e) status]\<rparr>;
                         body = commentBody name (view o2)
                     in (editComment e body, o2, d, [body]))
                  else (None, o1, d, [])))"

text \<open>
  The inner loop of \<open>applyAllSequential\<close> over the objects of one rollout: \<open>before\<close> are
  the objects already visited in this pass, \<open>view\<close> rebuilds the rollout set from the
  objects of the rollout. Result: error, objects, \<open>done\<close>, bodies sent.
\<close>

fun pollSequential ::
  "string \<Rightarrow> PollEnv \<Rightarrow> (RolloutObject list \<Rightarrow> Rollouts) \<Rightarrow> RolloutObject list \<Rightarrow> RolloutObject list
     \<Rightarrow> bool \<Rightarrow> error option \<times> RolloutObject list \<times> bool \<times> string list" where
  "pollSequential name e view before [] done = (None, before, done, [])"
| "pollSequential name e view before (obj # rest) done =
     (case GetStatusViewer (oObject obj) of
        None \<Rightarrow>
          pollSequential name e view (before @ [obj\<lparr>oRolloutStatus := ''NA'', oDone := True\<rparr>]) rest done
      | Some viewer \<Rightarrow>
          (case pollObject name e (\<lambda>x. view (before @ x # rest)) (\<lambda>d. d) viewer obj of
             (Some err, o', d, sent) \<Rightarrow> (Some err, before @ o' # rest, done, sent)
           | (None, o', d, sent) \<Rightarrow>
               (case pollSequential name e view (before @ [o']) rest (if \<not> d then False else done) of
                  (r, os, done', sent') \<Rightarrow> (r, os, done', sent @ sent'))))"

text \<open>The same for the inner loop of \<open>applyAllParallel\<close>, which also carries \<open>rodone\<close>.\<close>

fun pollParallelObjects ::
  "string \<Rightarrow> PollEnv \<Rightarrow> (RolloutObject list \<Rightarrow> Rollouts) \<Rightarrow> RolloutObject list \<Rightarrow> RolloutObject list
     \<Rightarrow> bool \<Rightarrow> bool \<Rightarrow> error option \<times> RolloutObject list \<times> bool \<times> bool \<times> string list" where
  "pollParallelObjects name e view before [] done rodone = (None, before, done, rodone, [])"
| "pollParallelObjects name e view before (obj # rest) done rodone =
     (case GetStatusViewer (oObject obj) of
        None \<Rightarrow>
          pollParallelObjects name e view
            (before @ [obj\<lparr>oRolloutStatus := ''NA'', oDone := True\<rparr>]) rest done rodone
      | Some viewer \<Rightarrow>
          (case pollObject name e (\<lambda>x. view (before @ x # rest)) (\<lambda>d. done) viewer obj of
             (Some err, o', d, sent) \<Rightarrow> (Some err, before @ o' # rest, done, rodone, sent)
           | (None, o', d, sent) \<Rightarrow>
               (case pollParallelObjects name e view (before @ [o']) rest
                       (if \<not> d then False else done) (if \<not> d then False else rodone) of
                  (r, os, done', rodone', sent') \<Rightarrow> (r, os, done', rodone', sent @ sent'))))"

text \<open>
  The loop of \<open>applyAllParallel\<close> over the rollouts of the set, within one iteration of
  \<open>for !done\<close>: \<open>hdr\<close> is the rollout set, \<open>rbefore\<close> the rollouts already visited.
\<close>

fun pollParallelRollouts ::
  "string \<Rightarrow> PollEnv \<Rightarrow> Rollouts \<Rightarrow> Rollout list \<Rightarrow> Rollout list \<Rightarrow> bool \<Rightarrow> bool
     \<Rightarrow> error option \<times> Rollout list \<times> bool \<times> bool \<times> string list" where
  "pollParallelRollouts name e hdr rbefore [] done rodone = (None, rbefore, done, rodone, [])"
| "pollParallelRollouts name e hdr rbefore (ro # rafter) done rodone =
     (case pollParallelObjects name e
             (\<lambda>objs. hdr\<lparr>rosRollouts := rbefore @ ro\<lparr>roObjects := objs\<rparr> # rafter\<rparr>)
             [] (roObjects ro) done rodone of
        (Some err, objs, done', rodone', sent) \<Rightarrow>
          (Some err, rbefore @ ro\<lparr>roObjects := objs\<rparr> # rafter, done', rodone', sent)
      | (None, objs, done', rodone', sent) \<Rightarrow>
          (let ro' = (if rodone' then ro\<lparr>roObjects := objs, roStatus := ''Complete'', roIcon := doneIcon\<rparr>
                      else ro\<lparr>roObjects := objs\<rparr>)
           in case pollParallelRollouts name e hdr (rbefore @ [ro']) rafter done' rodone' of
                (r, ros', done'', rodone'', sent') \<Rightarrow> (r, ros', done'', rodone'', sent @ sent')))"

text \<open>
  The loops \<open>for !done\<close>. Every iteration consumes one \<open>PollEnv\<close>; when the list is used
  up with objects still not done the loop is still polling, which is \<open>None\<close>. After the
  inner loop each iteration sends the comment once more.
\<close>

fun sequentialPollLoop ::
  "string \<Rightarrow> PollEnv list \<Rightarrow> (RolloutObject list \<Rightarrow> Rollouts) \<Rightarrow> RolloutObject list
     \<Rightarrow> (error option \<times> RolloutObject list \<times> string list) option" where
  "sequentialPollLoop name [] view objs = None"
| "sequentialPollLoop name (e # es) view objs =
     (case pollSequential name e view [] objs True of
        (Some err, objs', done, sent) \<Rightarrow> Some (Some err, objs', sent)
      | (None, objs', done, sent) \<Rightarrow>
          (let body = commentBody name (view objs')
           in case editComment e body of
                Some err \<Rightarrow> Some (Some err, objs', sent @ [body])
              | None \<Rightarrow>
                  if done then Some (None, objs', sent @ [body])
                  else (case sequentialPollLoop name es view objs' of
                          None \<Rightarrow> None
                        | Some (r, objs'', sent') \<Rightarrow> Some (r, objs'', sent @ body # sent'))))"

fun parallelPollLoop ::
  "string \<Rightarrow> PollEnv list \<Rightarrow> Rollouts \<Rightarrow> (error option \<times> Rollouts \<times> string list) option" where
  "parallelPollLoop name [] ros = None"
| "parallelPollLoop name (e # es) ros =
     (case pollParallelRollouts name e ros [] (rosRollouts ros) True True of
        (Some err, rs, done, rodone, sent) \<Rightarrow> Some (Some err, ros\<lparr>rosRollouts := rs\<rparr>, sent)
      | (None, rs, done, rodone, sent) \<Rightarrow>
          (let ros' = ros\<lparr>rosRollouts := rs\<rparr>;
               body = commentBody name ros'
           in case editComment e body of
                Some err \<Rightarrow> Some (Some err, ros', sent @ [body])
              | None \<Rightarrow>
                  if done then Some (None, ros', sent @ [body])
                  else (case parallelPollLoop name es ros' of
                          None \<Rightarrow> None
                        | Some (r, ros'', sent') \<Rightarrow> Some (r, ros'', sent @ body # sent'))))"

subsection \<open>Before and after actions\<close>

text \<open>
  The issue tracker as \<open>GitManager\<close> uses it for bookkeeping. Every operation acts on the
  remote state \<open>'st\<close> and answers with an error or none, so that a call whose error the
  program drops is still a step of the model.
\<close>

record 'st GitClient =
  AddLabelsToIssue :: "'st \<Rightarrow> int \<Rightarrow> string list \<Rightarrow> error option \<times> 'st"
  RemoveLabelForIssue :: "'st \<Rightarrow> int \<Rightarrow> string \<Rightarrow> error option \<times> 'st"
  AddAssigneesToIssue :: "'st \<Rightarrow> int \<Rightarrow> string list \<Rightarrow> error option \<times> 'st"
  RemoveAssigneesFromIssue :: "'st \<Rightarrow> int \<Rightarrow> string list \<Rightarrow> error option \<times> 'st"
  EditIssueState :: "'st \<Rightarrow> int \<Rightarrow> string \<Rightarrow> error option \<times> 'st"

definition AddLabels :: "'st GitClient \<Rightarrow> 'st \<Rightarrow> int \<Rightarrow> string list \<Rightarrow> error option \<times> 'st" where
  "AddLabels g st issue labels = AddLabelsToIssue g st issue labels"

definition AddAssignees :: "'st GitClient \<Rightarrow> 'st \<Rightarrow> int \<Rightarrow> string list \<Rightarrow> error option \<times> 'st" where
  "AddAssignees g st issue assignees = AddAssigneesToIssue g st issue assignees"

fun RemoveLabels :: "'st GitClient \<Rightarrow> 'st \<Rightarrow> int \<Rightarrow> string list \<Rightarrow> error option \<times> 'st" where
  "RemoveLabels g st issue [] = (None, st)"
| "RemoveLabels g st issue (l # ls) =
     (case RemoveLabelForIssue g st issue l of
        (Some err, st') \<Rightarrow> (Some err, st')
      | (None, st') \<Rightarrow> RemoveLabels g st' issue ls)"

definition RemoveAssignees :: "'st GitClient \<Rightarrow> 'st \<Rightarrow> int \<Rightarrow> string list \<Rightarrow> error option \<times> 'st" where
  "RemoveAssignees g st issue assignees = RemoveAssigneesFromIssue g st issue assignees"

definition UpdateIssueState :: "'st GitClient \<Rightarrow> 'st \<Rightarrow> int \<Rightarrow> string \<Rightarrow> error option \<times> 'st" where
  "UpdateIssueState g st issue state = EditIssueState g st issue state"

record Applier =
  aIssueNum :: int
  BeforeAddLabels :: "string list"
  BeforeAddAssignees :: "string list"
  BeforeRemoveLabels :: "string list"
  BeforeRemoveAssignees :: "string list"
  BeforeSetState :: string
  AfterAddLabels :: "string list"
  AfterAddAssignees :: "string list"
  AfterRemoveLabels :: "string list"
  AfterRemoveAssignees :: "string list"
  AfterSetState :: string

definition beforeActions :: "'st GitClient \<Rightarrow> Applier \<Rightarrow> 'st \<Rightarrow> error option \<times> 'st" where
  "beforeActions g a st =
     (case (if length (BeforeAddLabels a) > 0 then AddLabels g st (aIssueNum a) (BeforeAddLabels a)
            else (None, st)) of
        (Some err, st1) \<Rightarrow> (Some (FailedToAddLabels (BeforeAddLabels a) err), st1)
      | (None, st1) \<Rightarrow>
          (case RemoveLabels g st1 (aIssueNum a) (BeforeRemoveLabels a) of
             (ignored, st2) \<Rightarrow>
               (case (if length (BeforeAddAssignees a) > 0
                      then AddAssignees g st2 (aIssueNum a) (BeforeAddAssignees a)
                      else (None, st2)) of
                  (Some err, st3) \<Rightarrow> (Some (FailedToAddAssignees (BeforeAddAssignees a) err), st3)
                | (None, st3) \<Rightarrow>
                    (case RemoveAssignees g st3 (aIssueNum a) (BeforeRemoveAssignees a) of
                       (ignored', st4) \<Rightarrow>
                         if BeforeSetState a \<noteq> [] then
                           (case UpdateIssueState g st4 (aIssueNum a) (BeforeSetState a) of
                              (Some err, st5) \<Rightarrow> (Some (FailedToSetState err), st5)
                            | (None, st5) \<Rightarrow> (None, st5))
                         else (None, st4)))))"

definition afterActions :: "'st GitClient \<Rightarrow> Applier \<Rightarrow> 'st \<Rightarrow> error option \<times> 'st" where
  "afterActions g a st =
     (case (if length (AfterAddLabels a) > 0 then AddLabels g st (aIssueNum a) (AfterAddLabels a)
            else (None, st)) of
        (Some err, st1) \<Rightarrow> (Some err, st1)
      | (None, st1) \<Rightarrow>
          (case RemoveLabels g st1 (aIssueNum a) (AfterRemoveLabels a) of
             (ignored, st2) \<Rightarrow>
               (case (if length (AfterAddAssignees a) > 0
                      then AddAssignees g st2 (aIssueNum a) (AfterAddAssignees a)
                      else (None, st2)) of
                  (Some err, st3) \<Rightarrow> (Some (FailedToSetAssignees (AfterAddAssignees a) err), st3)
                | (None, st3) \<Rightarrow>
                    (case RemoveAssignees g st3 (aIssueNum a) (AfterRemoveAssignees a) of
                       (ignored', st4) \<Rightarrow>
                         if AfterSetState a \<noteq> [] then
                           (case UpdateIssueState g st4 (aIssueNum a) (AfterSetState a) of
                              (Some err, st5) \<Rightarrow> (Some (FailedToSetIssueState err), st5)
                            | (None, st5) \<Rightarrow> (None, st5))
                         else (None, st4)))))"

text \<open>
  \<open>Applier.Run\<close>: sync the working copy, run the before actions, roll out, run the after
  actions; the first error is returned. \<open>syncRepo\<close> is the outcome of
  \<open>GitClient.SyncRepo\<close>; \<open>rolloutPhase\<close> stands for the steps between the two action
  blocks (comment lookup, rendering, apply and polling, final comment) as one step on
  the tracker state, \<open>None\<close> when its polling never ends.
\<close>

definition Run ::
  "'st GitClient \<Rightarrow> Applier \<Rightarrow> error option \<Rightarrow> ('st \<Rightarrow> (error option \<times> 'st) option) \<Rightarrow> 'st
     \<Rightarrow> (error option \<times> 'st) option" where
  "Run g a syncRepo rolloutPhase st =
     (case syncRepo of
        Some err \<Rightarrow> Some (Some err, st)
      | None \<Rightarrow>
          (case beforeActions g a st of
             (Some err, st1) \<Rightarrow> Some (Some err, st1)
           | (None, st1) \<Rightarrow>
               (case rolloutPhase st1 of
                  None \<Rightarrow> None
                | Some (Some err, st2) \<Rightarrow> Some (Some err, st2)
                | Some (None, st2) \<Rightarrow> Some (afterActions g a st2))))"

section \<open>SourceSync (pkg/poller)\<close>

text \<open>
  Issues and pull requests as the tracker returns them, with the fields the program
  reads through the nil-safe getters; a missing milestone is \<open>None\<close> and its title is
  the empty string.
\<close>

record Issue =
  iID :: int
  iNumber :: int
  iBody :: string
  iState :: string
  iLabels :: "string list"
  iAssignees :: "string list"
  iMilestone :: "string option"
  iIsPullRequest :: bool

record PullRequest =
  prNumber :: int

definition GetTitle :: "string option \<Rightarrow> string" where
  "GetTitle m = (case m of None \<Rightarrow> [] | Some t \<Rightarrow> t)"

record IssueListByRepoOptions =
  optState :: string
  optLabels :: "string list"
  optAssignee :: string
  optMilestone :: string
  optSort :: string
  optDirection :: string

text \<open>The read side of the issue tracker, and the two git commands of \<open>SyncPRs\<close>.\<close>

record Tracker =
  ListByRepo :: "IssueListByRepoOptions \<Rightarrow> error + Issue list"
  IssuesGet :: "int \<Rightarrow> error + Issue"
  PullRequestsGet :: "int \<Rightarrow> error + PullRequest"

record GitRepo =
  gitFetch :: "error option"
  gitLog :: "error + string"

record Poller =
  pIssue :: "Issue option"
  pPr :: "PullRequest option"
  pCommit :: string
  pIssueNum :: int
  MatchLabels :: "string list"
  MatchAssignee :: string
  MatchMilestone :: string
  MatchState :: string

subsection \<open>The two regular expressions\<close>

text \<open>
  Go's regexp package returns the leftmost match and, among the matches that start
  there, the one a backtracking search finds first. Both expressions are a sequence of
  literals and greedy repetitions of a character class, each repetition followed by a
  character outside its class, so a repetition always takes the whole run. The matchers
  below follow the expressions piece by piece.

  \<open>rolloutRegex = \[pull-request\]: #(\d+)\s+\[commit\]: ([a-z0-9]+)\s+\<close>
  \<open>prRegex = ^([a-z0-9]+) .*Merge pull request #(\d+) from \<close>
\<close>

definition isLowerAlnum :: "char \<Rightarrow> bool" where
  "isLowerAlnum c = (c \<in> set ''abcdefghijklmnopqrstuvwxyz0123456789'')"

definition isRegexSpace :: "char \<Rightarrow> bool" where
  "isRegexSpace c = (c = CHR 0x09 \<or> c = CHR 0x0A \<or> c = CHR 0x0C \<or> c = CHR 0x0D \<or> c = CHR '' '')"

fun stripPrefix :: "string \<Rightarrow> string \<Rightarrow> string option" where
  "stripPrefix [] s = Some s"
| "stripPrefix (p # ps) [] = None"
| "stripPrefix (p # ps) (c # cs) = (if p = c then stripPrefix ps cs else None)"

text \<open>A match of \<open>rolloutRegex\<close> that starts at the head of the text: the two groups.\<close>

definition rolloutMatchAt :: "string \<Rightarrow> (string \<times> string) option" where
  "rolloutMatchAt s =
     (case stripPrefix ''[pull-request]: #'' s of
        None \<Rightarrow> None
      | Some r0 \<Rightarrow>
          (let ds = takeWhile isDigit r0; r1 = dropWhile isDigit r0
           in if ds = [] \<or> takeWhile isRegexSpace r1 = [] then None
              else (case stripPrefix ''[commit]: '' (dropWhile isRegexSpace r1) of
                      None \<Rightarrow> None
                    | Some r3 \<Rightarrow>
                        (let h = takeWhile isLowerAlnum r3; r4 = dropWhile isLowerAlnum r3
                         in if h = [] \<or> takeWhile isRegexSpace r4 = [] then None
                            else Some (ds, h)))))"

text \<open>\<open>rolloutRegex.FindStringSubmatch\<close>: the leftmost match, groups 1 and 2.\<close>

fun rolloutFindSubmatch :: "string \<Rightarrow> (string \<times> string) option" where
  "rolloutFindSubmatch [] = rolloutMatchAt []"
| "rolloutFindSubmatch (c # cs) =
     (case rolloutMatchAt (c # cs) of
        Some m \<Rightarrow> Some m
      | None \<Rightarrow> rolloutFindSubmatch cs)"

definition rolloutMatchString :: "string \<Rightarrow> bool" where
  "rolloutMatchString s = (rolloutFindSubmatch s \<noteq> None)"

text \<open>
  The tail of \<open>prRegex\<close>: \<open>Merge pull request #(\d+) from \<close> at the head of the text, and
  the greedy \<open>.*\<close> in front of it, which first tries to take one more character (any
  but a newline) and falls back to matching the tail where it stands.
\<close>

definition mergeAt :: "string \<Rightarrow> string option" where
  "mergeAt s =
     (case stripPrefix ''Merge pull request #'' s of
        None \<Rightarrow> None
      | Some r \<Rightarrow>
          (let ds = takeWhile isDigit r
           in if ds \<noteq> [] \<and> stripPrefix '' from '' (dropWhile isDigit r) \<noteq> None then Some ds
              else None))"

fun dotStarMerge :: "string \<Rightarrow> string option" where
  "dotStarMerge [] = mergeAt []"
| "dotStarMerge (c # cs) =
     (case (if c = CHR 0x0A then None else dotStarMerge cs) of
        Some ds \<Rightarrow> Some ds
      | None \<Rightarrow> mergeAt (c # cs))"

text \<open>\<open>prRegex.FindStringSubmatch\<close>: groups 1 and 2 of the match, which starts the line.\<close>

definition prFindSubmatch :: "string \<Rightarrow> (string \<times> string) option" where
  "prFindSubmatch l =
     (let h = takeWhile isLowerAlnum l
      in if h = [] then None
         else (case dropWhile isLowerAlnum l of
                 [] \<Rightarrow> None
               | c # r \<Rightarrow>
                   if c = CHR '' '' then
                     (case dotStarMerge r of None \<Rightarrow> None | Some ds \<Rightarrow> Some (h, ds))
                   else None))"

text \<open>\<open>strings.Split(s, "\n")\<close>.\<close>

fun splitLines :: "string \<Rightarrow> string list" where
  "splitLines [] = [[]]"
| "splitLines (c # cs) =
     (if c = CHR 0x0A then [] # splitLines cs
      else (case splitLines cs of l # ls \<Rightarrow> (c # l) # ls | [] \<Rightarrow> [[c]]))"

subsection \<open>\<open>Poller.SyncPRs\<close>\<close>

text \<open>The label loop (leaves at the first missing label) and the assignee loop.\<close>

fun labelsMatch :: "string set \<Rightarrow> string list \<Rightarrow> bool" where
  "labelsMatch labels [] = True"
| "labelsMatch labels (l # ls) = (if l \<notin> labels then False else labelsMatch labels ls)"

definition assigneeFound :: "string list \<Rightarrow> string \<Rightarrow> bool" where
  "assigneeFound assignees m = foldl (\<lambda>found a. if a = m then True else found) False assignees"

text \<open>The filter of \<open>SyncPRs\<close>: \<open>True\<close> when no check sends the loop to the next line.\<close>

definition candidatePasses :: "Poller \<Rightarrow> Issue \<Rightarrow> bool" where
  "candidatePasses p issue =
     (if length (MatchLabels p) > 0 \<and> \<not> labelsMatch (set (iLabels issue)) (MatchLabels p) then False
      else if MatchAssignee p \<noteq> [] \<and> \<not> assigneeFound (iAssignees issue) (MatchAssignee p) then False
      else if MatchMilestone p \<noteq> [] \<and> GetTitle (iMilestone issue) \<noteq> MatchMilestone p then False
      else if MatchState p \<noteq> [] \<and> (iState issue \<noteq> MatchState p \<and> MatchState p \<noteq> ''all'') then False
      else True)"

fun scanLog :: "Tracker \<Rightarrow> Poller \<Rightarrow> string list \<Rightarrow> (error + bool) \<times> Poller" where
  "scanLog t p [] = (Inl NoMatchingPRs, p)"
| "scanLog t p (l # ls) =
     (case prFindSubmatch l of
        None \<Rightarrow> scanLog t p ls
      | Some (commit, digits) \<Rightarrow>
          (case Atoi digits of
             Inl err \<Rightarrow> scanLog t p ls
           | Inr num \<Rightarrow>
               if commit = pCommit p then (Inr False, p)
               else (case IssuesGet t num of
                       Inl err \<Rightarrow> (Inl err, p)
                     | Inr issue \<Rightarrow>
                         if \<not> candidatePasses p issue then scanLog t p ls
                         else (let p1 = p\<lparr>pIssue := Some issue\<rparr>
                               in case PullRequestsGet t num of
                                    Inl err \<Rightarrow> (Inl err, p1)
                                  | Inr pr \<Rightarrow>
                                      (Inr True,
                                       p1\<lparr>pPr := Some pr, pCommit := commit, pIssueNum := num\<rparr>)))))"

definition SyncPRs :: "GitRepo \<Rightarrow> Tracker \<Rightarrow> Poller \<Rightarrow> (error + bool) \<times> Poller" where
  "SyncPRs git t p =
     (case gitFetch git of
        Some err \<Rightarrow> (Inl (CouldNotFetchGit err), p)
      | None \<Rightarrow>
          (case gitLog git of
             Inl err \<Rightarrow> (Inl (CouldNotRetrieveGitLog err), p)
           | Inr out \<Rightarrow> scanLog t p (splitLines out)))"

subsection \<open>\<open>Poller.SyncIssues\<close>\<close>

definition issueOptions :: "Poller \<Rightarrow> IssueListByRepoOptions" where
  "issueOptions p =
     \<lparr>optState = MatchState p, optLabels = MatchLabels p, optAssignee = MatchAssignee p,
      optMilestone = MatchMilestone p, optSort = ''created'', optDirection = ''desc''\<rparr>"

definition GetState :: "Issue option \<Rightarrow> string" where
  "GetState i = (case i of None \<Rightarrow> [] | Some x \<Rightarrow> iState x)"

text \<open>
  The loop over the listed issues acts on its first element only; what follows the loop
  is \<open>afterLoop\<close>. \<open>FindStringSubmatch\<close> is called only after \<open>MatchString\<close> has
  succeeded, so its result always has the two groups.
\<close>

definition afterLoop :: "Poller \<Rightarrow> bool \<Rightarrow> (error + bool) \<times> Poller" where
  "afterLoop p newIssue = (if GetState (pIssue p) = ''closed'' then (Inr False, p) else (Inr newIssue, p))"

definition SyncIssues :: "Tracker \<Rightarrow> Poller \<Rightarrow> (error + bool) \<times> Poller" where
  "SyncIssues t p =
     (case ListByRepo t (issueOptions p) of
        Inl err \<Rightarrow> (Inl err, p)
      | Inr [] \<Rightarrow> (Inl NoMatchingIssues, p)
      | Inr (newest # others) \<Rightarrow>
          if pIssue p \<noteq> None \<and> iID (the (pIssue p)) = iID newest then afterLoop p False
          else (let p1 = p\<lparr>pIssue := Some newest\<rparr>
                in if \<not> rolloutMatchString (iBody newest) then
                     (Inl (ExpectedMarkers (iNumber newest) (iBody newest)), p1)
                   else (case rolloutFindSubmatch (iBody newest) of
                           None \<Rightarrow> (Inl (ExpectedMarkers (iNumber newest) (iBody newest)), p1)
                         | Some (digits, commit) \<Rightarrow>
                             (case Atoi digits of
                                Inl err \<Rightarrow> (Inl err, p1)
                              | Inr prNum \<Rightarrow>
                                  (case PullRequestsGet t prNum of
                                     Inl err \<Rightarrow> (Inl err, p1)
                                   | Inr pr \<Rightarrow>
                                       afterLoop (p1\<lparr>pPr := Some pr, pCommit := commit\<rparr>) True)))))"

section \<open>IssueStatusAggregator (pkg/issues)\<close>

record StatusReporters =
  srName :: string
  srStatus :: string
  srStatusIcon :: string
  srDone :: bool
  srInProgressLabels :: "string list"
  srCompleteLabels :: "string list"
  srWaitFor :: "string list"

record Manager =
  mLabel :: string
  mStatusReporters :: "StatusReporters list"
  mIssue :: "Issue option"
  mPullRequest :: "PullRequest option"
  mCommit :: string

record IssueRequest =
  irState :: "string option"
  irBody :: "string option"

record EditTracker = Tracker +
  IssuesEdit :: "int \<Rightarrow> IssueRequest \<Rightarrow> error + Issue"

definition issueGetNumber :: "Issue option \<Rightarrow> int" where
  "issueGetNumber i = (case i of None \<Rightarrow> 0 | Some x \<Rightarrow> iNumber x)"

definition prGetNumber :: "PullRequest option \<Rightarrow> int" where
  "prGetNumber pr = (case pr of None \<Rightarrow> 0 | Some x \<Rightarrow> prNumber x)"

text \<open>\<open>sets.String.HasAll\<close>: every item is in the set; true for no items.\<close>

fun HasAll :: "string set \<Rightarrow> string list \<Rightarrow> bool" where
  "HasAll s [] = True"
| "HasAll s (item # items) = (if item \<notin> s then False else HasAll s items)"

text \<open>
  The loop of \<open>UpdateIssueStatus\<close> over the reporters: each reporter gets its phase, and
  each iteration assigns \<open>state\<close>.
\<close>

fun updateReporters ::
  "string set \<Rightarrow> StatusReporters list \<Rightarrow> string \<Rightarrow> StatusReporters list \<times> string" where
  "updateReporters s [] state = ([], state)"
| "updateReporters s (t # ts) state =
     (if HasAll s (srCompleteLabels t) then
        (case updateReporters s ts ''closed'' of
           (ts', state') \<Rightarrow>
             (t\<lparr>srStatus := ''Complete'', srDone := True, srStatusIcon := doneIcon\<rparr> # ts', state'))
      else if HasAll s (srInProgressLabels t) then
        (case updateReporters s ts ''open'' of
           (ts', state') \<Rightarrow>
             (t\<lparr>srStatus := ''In Progress'', srDone := False, srStatusIcon := inProgressIcon\<rparr> # ts',
              state'))
      else
        (case updateReporters s ts ''open'' of
           (ts', state') \<Rightarrow>
             (t\<lparr>srStatus := ''Pending'', srDone := False, srStatusIcon := []\<rparr> # ts', state')))"

text \<open>
  \<open>bodyTemplate\<close> is executed by html/template, which escapes every inserted string for
  HTML text: \<open>htmlEscape\<close> is its replacement table.
\<close>

definition htmlEscapeChar :: "char \<Rightarrow> string" where
  "htmlEscapeChar c =
     (if c = CHR 0x00 then [CHR 0xEF, CHR 0xBF, CHR 0xBD]
      else if c = CHR 0x22 then ''&#34;''
      else if c = CHR ''&'' then ''&amp;''
      else if c = CHR 0x27 then ''&#39;''
      else if c = CHR ''+'' then ''&#43;''
      else if c = CHR ''<'' then ''&lt;''
      else if c = CHR ''>'' then ''&gt;''
      else [c])"

definition htmlEscape :: "string \<Rightarrow> string" where
  "htmlEscape s = concat (map htmlEscapeChar s)"

definition reporterLine :: "StatusReporters \<Rightarrow> string" where
  "reporterLine r =
     ''- '' @ htmlEscape (srStatusIcon r) @ '' '' @ htmlEscape (srName r) @ '' - *''
       @ htmlEscape (srStatus r) @ ''*''
       @ (if \<not> srDone r then
            (if srWaitFor r \<noteq> [] then
               '' (run after'' @ concat (map (\<lambda>w. '' '' @ htmlEscape w) (srWaitFor r)) @ '')''
             else [])
          else [])
       @ ''\<newline>''"

definition bodyTemplate :: "Manager \<Rightarrow> string" where
  "bodyTemplate m =
     ''[pull-request]: #'' @ showInt (prGetNumber (mPullRequest m)) @ ''\<newline>''
       @ ''[commit]: '' @ htmlEscape (mCommit m) @ ''\<newline>''
       @ ''\<newline>''
       @ ''Rollout #'' @ showInt (prGetNumber (mPullRequest m)) @ ''\<newline>''
       @ ''\<newline>''
       @ concat (map reporterLine (mStatusReporters m))"

text \<open>
  \<open>Manager.UpdateIssueStatus\<close>. The result is the error, the manager, and the request sent
  to the tracker's \<open>Issues.Edit\<close> (none when the call is not reached).
\<close>

definition UpdateIssueStatus ::
  "'a EditTracker_scheme \<Rightarrow> Manager \<Rightarrow> error option \<times> Manager \<times> IssueRequest option" where
  "UpdateIssueStatus t m =
     (case IssuesGet t (issueGetNumber (mIssue m)) of
        Inl err \<Rightarrow> (Some err, m\<lparr>mIssue := None\<rparr>, None)
      | Inr issue \<Rightarrow>
          (case updateReporters (set (iLabels issue)) (mStatusReporters m) [] of
             (reporters, state) \<Rightarrow>
               (let m1 = m\<lparr>mIssue := Some issue, mStatusReporters := reporters\<rparr>;
                    b = bodyTemplate m1;
                    req = \<lparr>irState = Some state, irBody = Some b\<rparr>
                in case IssuesEdit t (issueGetNumber (mIssue m1)) req of
                     Inl err \<Rightarrow> (Some err, m1\<lparr>mIssue := None\<rparr>, Some req)
                   | Inr issue' \<Rightarrow> (None, m1\<lparr>mIssue := Some issue'\<rparr>, Some req))))"

section \<open>Notions used to state the properties\<close>

subsection \<open>What a pass does to one object\<close>

text \<open>
  For stating properties of the polling loops: whether an object has a viewer, what the
  engine answers for it during a pass (for an object without viewer, the values the
  loops record in its place), and the recording of a status message, which is the block
  \<open>if o.RolloutStatus != status\<close> of both loops.
\<close>

definition polled :: "RolloutObject \<Rightarrow> bool" where
  "polled obj = (GetStatusViewer (oObject obj) \<noteq> None)"

definition engineMessage :: "PollEnv \<Rightarrow> RolloutObject \<Rightarrow> string" where
  "engineMessage e obj =
     (case GetStatusViewer (oObject obj) of
        None \<Rightarrow> ''NA''
      | Some v \<Rightarrow> TrimSpace (fst (Status v (cluster e) (oNamespacedName obj) 0)))"

definition engineDone :: "PollEnv \<Rightarrow> RolloutObject \<Rightarrow> bool" where
  "engineDone e obj =
     (case GetStatusViewer (oObject obj) of
        None \<Rightarrow> True
      | Some v \<Rightarrow> fst (snd (Status v (cluster e) (oNamespacedName obj) 0)))"

definition engineError :: "PollEnv \<Rightarrow> RolloutObject \<Rightarrow> error option" where
  "engineError e obj =
     (case GetStatusViewer (oObject obj) of
        None \<Rightarrow> None
      | Some v \<Rightarrow> snd (snd (Status v (cluster e) (oNamespacedName obj) 0)))"

definition recordStatus :: "string \<Rightarrow> string \<Rightarrow> RolloutObject \<Rightarrow> RolloutObject" where
  "recordStatus t status obj =
     (if oRolloutStatus obj \<noteq> status then
        obj\<lparr>oRolloutStatus := status,
            oRolloutStatusHistory := oRolloutStatusHistory obj @ [historyLine t status]\<rparr>
      else obj)"

definition notApplicable :: "RolloutObject \<Rightarrow> RolloutObject" where
  "notApplicable obj = obj\<lparr>oRolloutStatus := ''NA'', oDone := True\<rparr>"

text \<open>The flags the parallel loop leaves on the objects of a pass that began with \<open>done\<close>.\<close>

fun parallelFlags :: "PollEnv \<Rightarrow> bool \<Rightarrow> RolloutObject list \<Rightarrow> RolloutObject list" where
  "parallelFlags e done [] = []"
| "parallelFlags e done (obj # rest) =
     (if polled obj then
        recordStatus (now e) (engineMessage e obj) (obj\<lparr>oDone := done\<rparr>)
          # parallelFlags e (done \<and> engineDone e obj) rest
      else notApplicable obj # parallelFlags e done rest)"

definition sequentialAfter :: "PollEnv \<Rightarrow> RolloutObject \<Rightarrow> RolloutObject" where
  "sequentialAfter e obj =
     (if polled obj then recordStatus (now e) (engineMessage e obj) (obj\<lparr>oDone := engineDone e obj\<rparr>)
      else notApplicable obj)"

subsection \<open>The phase of one reporter\<close>

text \<open>What one iteration of the loop of \<open>UpdateIssueStatus\<close> writes to its reporter.\<close>

definition evaluateReporter :: "string set \<Rightarrow> StatusReporters \<Rightarrow> StatusReporters" where
  "evaluateReporter s t =
     (if HasAll s (srCompleteLabels t) then
        t\<lparr>srStatus := ''Complete'', srDone := True, srStatusIcon := doneIcon\<rparr>
      else if HasAll s (srInProgressLabels t) then
        t\<lparr>srStatus := ''In Progress'', srDone := False, srStatusIcon := inProgressIcon\<rparr>
      else t\<lparr>srStatus := ''Pending'', srDone := False, srStatusIcon := []\<rparr>)"

subsection \<open>The merge-commit log as a list of candidates\<close>

text \<open>
  A line of the log that \<open>SyncPRs\<close> does not skip gives a commit hash and a pull-request
  number. The criteria of MatchCriteria as the specification words them: all required
  labels present, exact assignee login, exact milestone title, exact state with "all"
  always accepted, and an empty field matching everything.
\<close>

definition parseLine :: "string \<Rightarrow> (string \<times> int) option" where
  "parseLine l =
     (case prFindSubmatch l of
        None \<Rightarrow> None
      | Some (commit, digits) \<Rightarrow> (case Atoi digits of Inl err \<Rightarrow> None | Inr num \<Rightarrow> Some (commit, num)))"

definition parsedEntries :: "string list \<Rightarrow> (string \<times> int) list" where
  "parsedEntries ls = List.map_filter parseLine ls"

definition satisfiesCriteria :: "Poller \<Rightarrow> Issue \<Rightarrow> bool" where
  "satisfiesCriteria p issue =
     (set (MatchLabels p) \<subseteq> set (iLabels issue)
      \<and> (MatchAssignee p = [] \<or> MatchAssignee p \<in> set (iAssignees issue))
      \<and> (MatchMilestone p = [] \<or> GetTitle (iMilestone issue) = MatchMilestone p)
      \<and> (MatchState p = [] \<or> MatchState p = ''all'' \<or> iState issue = MatchState p))"

text \<open>The scan of \<open>SyncPRs\<close> on the candidates, when every tracker lookup succeeds.\<close>

fun scanEntries ::
  "Poller \<Rightarrow> (int \<Rightarrow> Issue) \<Rightarrow> (int \<Rightarrow> PullRequest) \<Rightarrow> (string \<times> int) list \<Rightarrow> (error + bool) \<times> Poller" where
  "scanEntries p issueOf prOf [] = (Inl NoMatchingPRs, p)"
| "scanEntries p issueOf prOf ((c, n) # es) =
     (if c = pCommit p then (Inr False, p)
      else if \<not> satisfiesCriteria p (issueOf n) then scanEntries p issueOf prOf es
      else (Inr True, p\<lparr>pIssue := Some (issueOf n), pPr := Some (prOf n), pCommit := c, pIssueNum := n\<rparr>))"

section \<open>Example inputs\<close>

text \<open>Concrete clusters, logs and trackers on which the properties below are exercised.\<close>

definition webName :: NamespacedName where
  "webName = \<lparr>Namespace = ''default'', Name = ''web''\<rparr>"

definition notFound :: error where
  "notFound = External ''not found''"

definition deploymentUpdating :: Deployment where
  "deploymentUpdating =
     \<lparr>depName = ''web'', depAnnotations = [], depGeneration = 2, depSpecReplicas = Some 3,
      depObservedGeneration = 2, depReplicas = 3, depUpdatedReplicas = 1,
      depAvailableReplicas = 1, depConditions = []\<rparr>"

definition deploymentReady :: Deployment where
  "deploymentReady =
     \<lparr>depName = ''web'', depAnnotations = [], depGeneration = 2, depSpecReplicas = Some 3,
      depObservedGeneration = 2, depReplicas = 3, depUpdatedReplicas = 3,
      depAvailableReplicas = 3, depConditions = []\<rparr>"

definition statefulSetPartitionOne :: StatefulSet where
  "statefulSetPartitionOne =
     \<lparr>stsStrategyType = ''RollingUpdate'', stsRollingUpdate = Some (Some 1),
      stsGeneration = 4, stsSpecReplicas = Some 3, stsObservedGeneration = 4,
      stsReadyReplicas = 3, stsUpdatedReplicas = 2, stsCurrentReplicas = 1,
      stsUpdateRevision = ''web-7d'', stsCurrentRevision = ''web-5c''\<rparr>"

definition clusterWith :: "Deployment \<Rightarrow> Cluster" where
  "clusterWith d =
     \<lparr>getDeployment = (\<lambda>n. if n = webName then Inr d else Inl notFound),
      getDaemonSet = (\<lambda>n. Inl notFound),
      getStatefulSet = (\<lambda>n. if n = webName then Inr statefulSetPartitionOne else Inl notFound)\<rparr>"

definition deploymentObject :: "string \<Rightarrow> RolloutObject" where
  "deploymentObject n =
     \<lparr>oRaw = ''kind: Deployment'', oJSON = ''{}'', oObject = AppsV1Deployment,
      oTypeName = ''*v1.Deployment'', oNamespacedName = \<lparr>Namespace = ''default'', Name = n\<rparr>,
      oDisplay = ''Deployment default/'' @ n, oApplyStatus = ''configured'', oRolloutStatus = [],
      oRolloutStatusHistory = [], oDone = False\<rparr>"

definition configMapObject :: RolloutObject where
  "configMapObject =
     \<lparr>oRaw = ''kind: ConfigMap'', oJSON = ''{}'', oObject = OtherKind ''*v1.ConfigMap'',
      oTypeName = ''*v1.ConfigMap'', oNamespacedName = \<lparr>Namespace = ''default'', Name = ''settings''\<rparr>,
      oDisplay = ''ConfigMap default/settings'', oApplyStatus = ''created'', oRolloutStatus = [],
      oRolloutStatusHistory = [], oDone = False\<rparr>"

text \<open>A cluster in which the deployment \<open>b\<close> is still updating and every other one is ready.\<close>

definition clusterBUpdating :: Cluster where
  "clusterBUpdating =
     \<lparr>getDeployment = (\<lambda>n. if Name n = ''b'' then Inr deploymentUpdating else Inr deploymentReady),
      getDaemonSet = (\<lambda>n. Inl notFound),
      getStatefulSet = (\<lambda>n. Inl notFound)\<rparr>"

definition envBUpdating :: PollEnv where
  "envBUpdating = \<lparr>cluster = clusterBUpdating, now = ''01 Nov 26 12:00 UTC'', editComment = (\<lambda>b. None)\<rparr>"

definition exampleRollouts :: Rollouts where
  "exampleRollouts =
     \<lparr>rosName = ''demo'', rosStatus = ''In Progress'', rosIcon = inProgressIcon,
      rosRollouts =
        [\<lparr>roPath = ''config'', roStatus = ''In Progress'', roIcon = inProgressIcon,
          roObjects = [deploymentObject ''a'', deploymentObject ''b'']\<rparr>,
         \<lparr>roPath = ''config2'', roStatus = ''In Progress'', roIcon = inProgressIcon,
          roObjects = [configMapObject, deploymentObject ''c'']\<rparr>]\<rparr>"

text \<open>
  The deployment \<open>a\<close> as it stands after an earlier pass has recorded the engine's present
  message for it, and \<open>b\<close> with one earlier history line and an outdated message.
\<close>

definition recordedA :: RolloutObject where
  "recordedA =
     (deploymentObject ''a'')
       \<lparr>oRolloutStatus := engineMessage envBUpdating (deploymentObject ''a''),
        oRolloutStatusHistory :=
          [''*01 Nov 26 11:59 UTC* - `deployment '' @ [CHR 0x22] @ ''default/a'' @ [CHR 0x22]
             @ '' successfully rolled out`''],
        oDone := True\<rparr>"

definition outdatedB :: RolloutObject where
  "outdatedB =
     (deploymentObject ''b'')
       \<lparr>oRolloutStatus := ''Waiting for deployment spec update to be observed...'',
        oRolloutStatusHistory :=
          [''*01 Nov 26 11:59 UTC* - `Waiting for deployment spec update to be observed...`'']\<rparr>"

definition viewExample :: "RolloutObject list \<Rightarrow> Rollouts" where
  "viewExample xs =
     exampleRollouts
       \<lparr>rosRollouts :=
          [] @ \<lparr>roPath = ''config'', roStatus = ''In Progress'', roIcon = inProgressIcon,
                roObjects = [recordedA, outdatedB]\<rparr>\<lparr>roObjects := xs\<rparr> # []\<rparr>"

text \<open>
  A tracker, with the set of labels of the issue as its state, on which every removal
  fails and every other operation succeeds; one that refuses the assignee \<open>ghost\<close> and
  the state \<open>closed\<close> and nothing else; and an applier that adds and removes a label
  before and after the rollout.
\<close>

definition removalsFail :: "string set GitClient" where
  "removalsFail =
     \<lparr>AddLabelsToIssue = (\<lambda>s n ls. (None, s \<union> set ls)),
      RemoveLabelForIssue = (\<lambda>s n l. (Some (External ''404 Label does not exist''), s)),
      AddAssigneesToIssue = (\<lambda>s n as. (None, s)),
      RemoveAssigneesFromIssue = (\<lambda>s n as. (Some (External ''422 Unprocessable Entity''), s)),
      EditIssueState = (\<lambda>s n state. (None, s))\<rparr>"

definition assigneeRefused :: "string set GitClient" where
  "assigneeRefused =
     \<lparr>AddLabelsToIssue = (\<lambda>s n ls. (None, s \<union> set ls)),
      RemoveLabelForIssue = (\<lambda>s n l. (None, s - {l})),
      AddAssigneesToIssue =
        (\<lambda>s n as. if ''ghost'' \<in> set as then (Some (External ''422 Unprocessable Entity''), s)
                  else (None, s)),
      RemoveAssigneesFromIssue = (\<lambda>s n as. (None, s)),
      EditIssueState =
        (\<lambda>s n state. if state = ''closed'' then (Some (External ''403 Forbidden''), s) else (None, s))\<rparr>"

definition labellingApplier :: Applier where
  "labellingApplier =
     \<lparr>aIssueNum = 42, BeforeAddLabels = [''rolling-out''], BeforeAddAssignees = [],
      BeforeRemoveLabels = [''rolled-out''], BeforeRemoveAssignees = [''bot''], BeforeSetState = [],
      AfterAddLabels = [''rolled-out''], AfterAddAssignees = [],
      AfterRemoveLabels = [''rolling-out''], AfterRemoveAssignees = [''bot''], AfterSetState = ''closed''\<rparr>"

text \<open>
  Two reporters whose complete labels are \<open>done-r1\<close> and \<open>done-r2\<close>, a tracking issue that
  carries only \<open>done-r1\<close>, and a tracker that returns it.
\<close>

definition reporterR1 :: StatusReporters where
  "reporterR1 =
     \<lparr>srName = ''R1'', srStatus = [], srStatusIcon = [], srDone = False,
      srInProgressLabels = [''started-r1''], srCompleteLabels = [''done-r1''], srWaitFor = []\<rparr>"

definition reporterR2 :: StatusReporters where
  "reporterR2 =
     \<lparr>srName = ''R2'', srStatus = [], srStatusIcon = [], srDone = False,
      srInProgressLabels = [''started-r2''], srCompleteLabels = [''done-r2''], srWaitFor = [''R1'']\<rparr>"

definition trackingIssue :: Issue where
  "trackingIssue =
     \<lparr>iID = 9001, iNumber = 77, iBody = [], iState = ''open'', iLabels = [''rollout'', ''done-r1''],
      iAssignees = [], iMilestone = None, iIsPullRequest = False\<rparr>"

definition managerR1R2 :: Manager where
  "managerR1R2 =
     \<lparr>mLabel = ''rollout'', mStatusReporters = [reporterR1, reporterR2],
      mIssue = Some trackingIssue, mPullRequest = Some \<lparr>prNumber = 42\<rparr>, mCommit = ''abc123''\<rparr>"

definition trackerR1R2 :: EditTracker where
  "trackerR1R2 =
     \<lparr>ListByRepo = (\<lambda>opts. Inr [trackingIssue]),
      IssuesGet = (\<lambda>n. if n = 77 then Inr trackingIssue else Inl notFound),
      PullRequestsGet = (\<lambda>n. if n = 42 then Inr \<lparr>prNumber = 42\<rparr> else Inl notFound),
      IssuesEdit = (\<lambda>n req. if n = 77 then Inr trackingIssue else Inl notFound)\<rparr>"

text \<open>
  A tracker whose newest issue carries the body the aggregator renders for
  \<open>managerR1R2\<close>, and a poller that tracks nothing yet.
\<close>

definition renderedIssue :: Issue where
  "renderedIssue = trackingIssue\<lparr>iBody := bodyTemplate managerR1R2\<rparr>"

definition trackerRendered :: Tracker where
  "trackerRendered =
     \<lparr>ListByRepo = (\<lambda>opts. Inr [renderedIssue]),
      IssuesGet = (\<lambda>n. if n = 77 then Inr renderedIssue else Inl notFound),
      PullRequestsGet = (\<lambda>n. if n = 42 then Inr \<lparr>prNumber = 42\<rparr> else Inl notFound)\<rparr>"

definition freshPoller :: Poller where
  "freshPoller =
     \<lparr>pIssue = None, pPr = None, pCommit = [], pIssueNum = 0, MatchLabels = [''rollout''],
      MatchAssignee = [], MatchMilestone = [], MatchState = []\<rparr>"

text \<open>
  A log of two merges, the pull request of the newer one without the required label, and
  a poller that tracks the older merge.
\<close>

definition twoMergesLog :: string where
  "twoMergesLog =
     ''bbb222 Merge pull request #2 from org/fix\<newline>''
       @ ''aaa111 Merge pull request #1 from org/feature\<newline>''"

definition twoMerges :: GitRepo where
  "twoMerges = \<lparr>gitFetch = None, gitLog = Inr twoMergesLog\<rparr>"

definition issueOfPR :: "int \<Rightarrow> Issue" where
  "issueOfPR n =
     \<lparr>iID = 1000 + n, iNumber = n, iBody = [], iState = ''closed'',
      iLabels = (if n = 1 then [''rollout''] else []), iAssignees = [], iMilestone = None,
      iIsPullRequest = True\<rparr>"

definition trackerTwoPRs :: Tracker where
  "trackerTwoPRs =
     \<lparr>ListByRepo = (\<lambda>opts. Inr []),
      IssuesGet = (\<lambda>n. Inr (issueOfPR n)),
      PullRequestsGet = (\<lambda>n. Inr \<lparr>prNumber = n\<rparr>)\<rparr>"

definition pollerTrackingFirst :: Poller where
  "pollerTrackingFirst =
     freshPoller\<lparr>pIssue := Some (issueOfPR 1), pPr := Some \<lparr>prNumber = 1\<rparr>, pCommit := ''aaa111'',
                 pIssueNum := 1\<rparr>"

text \<open>A tracker whose newest matching issue has a body without the markers.\<close>

definition malformedIssue :: Issue where
  "malformedIssue = trackingIssue\<lparr>iBody := ''Rollout #42, commit abc123''\<rparr>"

definition trackerMalformed :: Tracker where
  "trackerMalformed =
     \<lparr>ListByRepo = (\<lambda>opts. Inr [malformedIssue]),
      IssuesGet = (\<lambda>n. if n = 77 then Inr malformedIssue else Inl notFound),
      PullRequestsGet = (\<lambda>n. Inr \<lparr>prNumber = n\<rparr>)\<rparr>"

text \<open>
  A tracker whose newest matching issue carries the markers of pull request 42, and the
  same tracker while the lookup of pull requests fails; the tracker of the two merges while
  the lookup of pull requests fails.
\<close>

definition badGateway :: error where
  "badGateway = External ''502 Bad Gateway''"

definition markedIssue :: Issue where
  "markedIssue = trackingIssue\<lparr>iBody := ''[pull-request]: #42\<newline>[commit]: abc123\<newline>''\<rparr>"

definition trackerMarked :: Tracker where
  "trackerMarked =
     \<lparr>ListByRepo = (\<lambda>opts. Inr [markedIssue]),
      IssuesGet = (\<lambda>n. if n = 77 then Inr markedIssue else Inl notFound),
      PullRequestsGet = (\<lambda>n. Inr \<lparr>prNumber = n\<rparr>)\<rparr>"

definition trackerMarkedDown :: Tracker where
  "trackerMarkedDown = trackerMarked\<lparr>PullRequestsGet := (\<lambda>n. Inl badGateway)\<rparr>"

definition trackerTwoPRsDown :: Tracker where
  "trackerTwoPRsDown = trackerTwoPRs\<lparr>PullRequestsGet := (\<lambda>n. Inl badGateway)\<rparr>"

section \<open>Properties\<close>

subsection \<open>Auxiliary facts\<close>

lemma digitsOf_small: "n < 10 \<Longrightarrow> digitsOf n = [digitChar n]"
  by (simp add: digitsOf.simps)

lemma showInt_1: "showInt 1 = ''1''"
  by (simp add: showInt_def digitsOf_small digitChar_def)

lemma showInt_2: "showInt 2 = ''2''"
  by (simp add: showInt_def digitsOf_small digitChar_def)

lemma showInt_3: "showInt 3 = ''3''"
  by (simp add: showInt_def digitsOf_small digitChar_def)

text \<open>Subtracting non-negative \<open>int32\<close> values does not wrap.\<close>

lemma sint_sub_nonneg:
  fixes a b :: "32 word"
  assumes "0 \<le> sint a" "0 \<le> sint b"
  shows "sint (a - b) = sint a - sint b"
proof -
  have a: "sint a < 2 ^ 31" using sint_lt [of a] by simp
  have b: "sint b < 2 ^ 31" using sint_lt [of b] by simp
  have "sint (a - b) = signed_take_bit 31 (sint a - sint b)"
    using sint_word_ariths(2) [of a b] by simp
  also have "\<dots> = sint a - sint b"
    using assms a b by (intro signed_take_bit_int_eq_self) auto
  finally show ?thesis .
qed

subsection \<open>RolloutStatusEngine\<close>

text \<open>
  C2. For a Deployment that the accessor returns, whose generation has been observed,
  whose requested revision (if one is requested) is its recorded revision, that has no
  progress-deadline-exceeded condition and whose desired replica count is set, the status
  is decided by three comparisons in this order: updated against desired, total against
  updated, available against updated; each failing comparison yields its own message with
  done false, and passing all three yields the success message with done true. With
  desired, updated, total and available all 3 the result is done; with 1 updated of 3
  desired it is not done and the message cites 1 and 3.
\<close>

theorem deployment_status_comparisons:
  assumes "getDeployment c name = Inr d"
    and "revision \<le> 0 \<or> Revision d = Inr revision"
    and "sint (depGeneration d) \<le> sint (depObservedGeneration d)"
    and "\<forall>cond. GetDeploymentCondition (depConditions d) DeploymentProgressing = Some cond
           \<longrightarrow> condReason cond \<noteq> TimedOutReason"
    and "depSpecReplicas d = Some desired"
  shows "DeploymentStatus c name revision =
           (if sint (depUpdatedReplicas d) < sint desired then
              (''Waiting for deployment '' @ quoteName name @ '' rollout to finish: ''
                 @ showInt (sint (depUpdatedReplicas d)) @ '' out of '' @ showInt (sint desired)
                 @ '' new replicas have been updated...\<newline>'', False, None)
            else if sint (depUpdatedReplicas d) < sint (depReplicas d) then
              (''Waiting for deployment '' @ quoteName name @ '' rollout to finish: ''
                 @ showInt (sint (depReplicas d - depUpdatedReplicas d))
                 @ '' old replicas are pending termination...\<newline>'', False, None)
            else if sint (depAvailableReplicas d) < sint (depUpdatedReplicas d) then
              (''Waiting for deployment '' @ quoteName name @ '' rollout to finish: ''
                 @ showInt (sint (depAvailableReplicas d)) @ '' of ''
                 @ showInt (sint (depUpdatedReplicas d))
                 @ '' updated replicas are available...\<newline>'', False, None)
            else (''deployment '' @ quoteName name @ '' successfully rolled out\<newline>'', True, None))
         \<and> (desired = 3 \<and> depUpdatedReplicas d = 3 \<and> depReplicas d = 3 \<and> depAvailableReplicas d = 3
              \<longrightarrow> fst (snd (DeploymentStatus c name revision)) = True)
         \<and> (desired = 3 \<and> depUpdatedReplicas d = 1
              \<longrightarrow> DeploymentStatus c name revision =
                    (''Waiting for deployment '' @ quoteName name
                       @ '' rollout to finish: 1 out of 3 new replicas have been updated...\<newline>'',
                     False, None))"
proof -
  have obs: "deploymentObserved name d = deploymentReplicas name d"
    using assms(3,4) by (auto simp: deploymentObserved_def split: option.splits)
  have st: "DeploymentStatus c name revision = deploymentReplicas name d"
    using assms(1,2) obs by (auto simp: DeploymentStatus_def)
  have gen: "deploymentReplicas name d =
           (if sint (depUpdatedReplicas d) < sint desired then
              (''Waiting for deployment '' @ quoteName name @ '' rollout to finish: ''
                 @ showInt (sint (depUpdatedReplicas d)) @ '' out of '' @ showInt (sint desired)
                 @ '' new replicas have been updated...\<newline>'', False, None)
            else if sint (depUpdatedReplicas d) < sint (depReplicas d) then
              (''Waiting for deployment '' @ quoteName name @ '' rollout to finish: ''
                 @ showInt (sint (depReplicas d - depUpdatedReplicas d))
                 @ '' old replicas are pending termination...\<newline>'', False, None)
            else if sint (depAvailableReplicas d) < sint (depUpdatedReplicas d) then
              (''Waiting for deployment '' @ quoteName name @ '' rollout to finish: ''
                 @ showInt (sint (depAvailableReplicas d)) @ '' of ''
                 @ showInt (sint (depUpdatedReplicas d))
                 @ '' updated replicas are available...\<newline>'', False, None)
            else (''deployment '' @ quoteName name @ '' successfully rolled out\<newline>'', True, None))"
    using assms(5) by (simp add: deploymentReplicas_def)
  have i1: "desired = 3 \<and> depUpdatedReplicas d = 3 \<and> depReplicas d = 3 \<and> depAvailableReplicas d = 3
              \<longrightarrow> fst (snd (deploymentReplicas name d)) = True"
    by (simp add: gen)
  have i2: "desired = 3 \<and> depUpdatedReplicas d = 1
              \<longrightarrow> deploymentReplicas name d =
                    (''Waiting for deployment '' @ quoteName name
                       @ '' rollout to finish: 1 out of 3 new replicas have been updated...\<newline>'',
                     False, None)"
    by (simp add: gen showInt_1 showInt_3)
  show ?thesis
    unfolding st using gen i1 i2 by blast
qed

theorem deployment_status_comparisons_witness:
  "DeploymentStatus (clusterWith deploymentUpdating) webName 0 =
     (''Waiting for deployment '' @ quoteName webName
        @ '' rollout to finish: 1 out of 3 new replicas have been updated...\<newline>'', False, None)
   \<and> DeploymentStatus (clusterWith deploymentReady) webName 0 =
     (''deployment '' @ quoteName webName @ '' successfully rolled out\<newline>'', True, None)"
proof -
  have h1: "getDeployment (clusterWith deploymentUpdating) webName = Inr deploymentUpdating"
    by (simp add: clusterWith_def)
  have h2: "getDeployment (clusterWith deploymentReady) webName = Inr deploymentReady"
    by (simp add: clusterWith_def)
  have a: "DeploymentStatus (clusterWith deploymentUpdating) webName 0 =
     (''Waiting for deployment '' @ quoteName webName
        @ '' rollout to finish: 1 out of 3 new replicas have been updated...\<newline>'', False, None)"
    using deployment_status_comparisons [OF h1, of 0 3]
    by (simp add: deploymentUpdating_def showInt_1 showInt_3)
  have b: "DeploymentStatus (clusterWith deploymentReady) webName 0 =
     (''deployment '' @ quoteName webName @ '' successfully rolled out\<newline>'', True, None)"
    using deployment_status_comparisons [OF h2, of 0 3]
    by (simp add: deploymentReady_def)
  show ?thesis using a b by simp
qed

text \<open>
  C5. For a StatefulSet that the accessor returns, with the RollingUpdate strategy, a
  configured partition, an observed generation and at least the desired number of ready
  replicas, the result is done exactly when the updated replicas reach desired minus
  partition (the \<open>int32\<close> difference, which is the integer difference when neither
  number is negative), and it is then reported as "partitioned roll out complete". With
  partition 1 and 3 desired, 2 updated replicas give done.
\<close>

theorem statefulset_partition_threshold:
  assumes "getStatefulSet c name = Inr sts"
    and "stsStrategyType sts = RollingUpdateStatefulSetStrategyType"
    and "stsRollingUpdate sts = Some (Some prt)"
    and "stsSpecReplicas sts = Some desired"
    and "stsObservedGeneration sts \<noteq> 0"
    and "sint (stsGeneration sts) \<le> sint (stsObservedGeneration sts)"
    and "sint desired \<le> sint (stsReadyReplicas sts)"
  shows "(fst (snd (StatefulSetStatus c name revision))
            \<longleftrightarrow> sint (desired - prt) \<le> sint (stsUpdatedReplicas sts))
         \<and> (0 \<le> sint desired \<and> 0 \<le> sint prt \<longrightarrow>
              (fst (snd (StatefulSetStatus c name revision))
                 \<longleftrightarrow> sint desired - sint prt \<le> sint (stsUpdatedReplicas sts)))
         \<and> (sint (desired - prt) \<le> sint (stsUpdatedReplicas sts) \<longrightarrow>
              StatefulSetStatus c name revision =
                (''partitioned roll out complete: '' @ showInt (sint (stsUpdatedReplicas sts))
                   @ '' new pods have been updated...\<newline>'', True, None))
         \<and> (desired = 3 \<and> prt = 1 \<and> stsUpdatedReplicas sts = 2 \<longrightarrow>
              fst (snd (StatefulSetStatus c name revision)))"
proof -
  have st: "StatefulSetStatus c name revision = statefulSetPartitioned sts"
    using assms
    by (simp add: StatefulSetStatus_def OnDeleteStatefulSetStrategyType_def
        RollingUpdateStatefulSetStrategyType_def)
  have pt: "statefulSetPartitioned sts =
      (if sint (stsUpdatedReplicas sts) < sint (desired - prt) then
         (''Waiting for partitioned roll out to finish: ''
            @ showInt (sint (stsUpdatedReplicas sts)) @ '' out of ''
            @ showInt (sint (desired - prt))
            @ '' new pods have been updated...\<newline>'', False, None)
       else
         (''partitioned roll out complete: '' @ showInt (sint (stsUpdatedReplicas sts))
            @ '' new pods have been updated...\<newline>'', True, None))"
    using assms(3,4) by (simp add: statefulSetPartitioned_def)
  have c1: "fst (snd (statefulSetPartitioned sts))
            \<longleftrightarrow> sint (desired - prt) \<le> sint (stsUpdatedReplicas sts)"
    by (simp add: pt)
  have c2: "0 \<le> sint desired \<and> 0 \<le> sint prt \<longrightarrow>
              (fst (snd (statefulSetPartitioned sts))
                 \<longleftrightarrow> sint desired - sint prt \<le> sint (stsUpdatedReplicas sts))"
    using c1 sint_sub_nonneg [of desired prt] by simp
  have c3: "sint (desired - prt) \<le> sint (stsUpdatedReplicas sts) \<longrightarrow>
              statefulSetPartitioned sts =
                (''partitioned roll out complete: '' @ showInt (sint (stsUpdatedReplicas sts))
                   @ '' new pods have been updated...\<newline>'', True, None)"
    by (simp add: pt)
  have c4: "desired = 3 \<and> prt = 1 \<and> stsUpdatedReplicas sts = 2 \<longrightarrow>
              fst (snd (statefulSetPartitioned sts))"
    by (simp add: pt)
  show ?thesis
    unfolding st using c1 c2 c3 c4 by blast
qed

theorem statefulset_partition_threshold_witness:
  "StatefulSetStatus (clusterWith deploymentReady) webName 0 =
     (''partitioned roll out complete: 2 new pods have been updated...\<newline>'', True, None)
   \<and> sint (stsUpdatedReplicas statefulSetPartitionOne) < sint (3 :: 32 word)"
proof -
  have h: "getStatefulSet (clusterWith deploymentReady) webName = Inr statefulSetPartitionOne"
    by (simp add: clusterWith_def)
  show ?thesis
    using statefulset_partition_threshold [OF h, of 1 3 0] showInt_2
    by (simp add: statefulSetPartitionOne_def RollingUpdateStatefulSetStrategyType_def)
qed

subsection \<open>ApplyOrchestrator\<close>

subsection \<open>Polling passes\<close>

lemma pollObject_ok:
  assumes "pollObject name e view flag v obj = (None, obj', d, sent)"
    and "GetStatusViewer (oObject obj) = Some v"
  shows "obj' = recordStatus (now e) (engineMessage e obj) (obj\<lparr>oDone := flag (engineDone e obj)\<rparr>)"
    and "d = engineDone e obj"
    and "engineError e obj = None"
    and "sent = (if oRolloutStatus obj \<noteq> engineMessage e obj then [commentBody name (view obj')] else [])"
  using assms
  by (auto simp: pollObject_def engineMessage_def engineDone_def engineError_def recordStatus_def
      Let_def split: prod.splits option.splits if_splits)

lemma pollSequential_ok:
  "pollSequential name e view before objs done = (None, objs', done', sent)
   \<Longrightarrow> objs' = before @ map (sequentialAfter e) objs
       \<and> done' = (done \<and> (\<forall>x \<in> set objs. engineDone e x))"
proof (induction objs arbitrary: before "done" sent)
  case Nil
  then show ?case by simp
next
  case (Cons obj rest)
  show ?case
  proof (cases "GetStatusViewer (oObject obj)")
    case None
    with Cons.prems have
      "pollSequential name e view (before @ [notApplicable obj]) rest done = (None, objs', done', sent)"
      by (simp add: notApplicable_def)
    from Cons.IH [OF this] None show ?thesis
      by (simp add: sequentialAfter_def polled_def engineDone_def)
  next
    case (Some v)
    obtain r o' d s1 where po: "pollObject name e (\<lambda>x. view (before @ x # rest)) (\<lambda>d. d) v obj = (r, o', d, s1)"
      by (metis prod_cases4)
    with Cons.prems Some have r: "r = None"
      by (cases r) auto
    obtain r2 os2 d2 s2 where rec:
      "pollSequential name e view (before @ [o']) rest (if \<not> d then False else done) = (r2, os2, d2, s2)"
      by (metis prod_cases4)
    with Cons.prems Some po r have eqs: "r2 = None" "os2 = objs'" "d2 = done'"
      by auto
    note ok = pollObject_ok [OF po [unfolded r] Some]
    from Cons.IH [OF rec [unfolded eqs]] ok(1,2) Some show ?thesis
      by (auto simp: sequentialAfter_def polled_def)
  qed
qed

lemma pollParallelObjects_ok:
  "pollParallelObjects name e view before objs done rodone = (None, objs', done', rodone', sent)
   \<Longrightarrow> objs' = before @ parallelFlags e done objs
       \<and> done' = (done \<and> (\<forall>x \<in> set objs. engineDone e x))
       \<and> rodone' = (rodone \<and> (\<forall>x \<in> set objs. engineDone e x))"
proof (induction objs arbitrary: before "done" rodone sent)
  case Nil
  then show ?case by simp
next
  case (Cons obj rest)
  show ?case
  proof (cases "GetStatusViewer (oObject obj)")
    case None
    with Cons.prems have
      "pollParallelObjects name e view (before @ [notApplicable obj]) rest done rodone
         = (None, objs', done', rodone', sent)"
      by (simp add: notApplicable_def)
    from Cons.IH [OF this] None show ?thesis
      by (simp add: polled_def engineDone_def)
  next
    case (Some v)
    obtain r o' d s1 where po:
      "pollObject name e (\<lambda>x. view (before @ x # rest)) (\<lambda>d. done) v obj = (r, o', d, s1)"
      by (metis prod_cases4)
    with Cons.prems Some have r: "r = None"
      by (cases r) auto
    obtain r2 os2 d2 rd2 s2 where rec:
      "pollParallelObjects name e view (before @ [o']) rest (if \<not> d then False else done)
         (if \<not> d then False else rodone) = (r2, os2, d2, rd2, s2)"
      by (metis prod_cases5)
    with Cons.prems Some po r have eqs: "r2 = None" "os2 = objs'" "d2 = done'" "rd2 = rodone'"
      by auto
    note ok = pollObject_ok [OF po [unfolded r] Some]
    from Cons.IH [OF rec [unfolded eqs]] ok(1,2) Some show ?thesis
      by (auto simp: polled_def)
  qed
qed

lemma pollObject_total:
  assumes "GetStatusViewer (oObject obj) = Some v"
    and "engineError e obj = None"
    and "\<forall>b. editComment e b = None"
  shows "fst (pollObject name e view flag v obj) = None"
  using assms
  by (auto simp: pollObject_def engineError_def Let_def split: prod.splits option.splits)

lemma pollSequential_total:
  "\<forall>x \<in> set objs. engineError e x = None \<Longrightarrow> \<forall>b. editComment e b = None
   \<Longrightarrow> fst (pollSequential name e view before objs done) = None"
proof (induction objs arbitrary: before "done")
  case Nil
  then show ?case by simp
next
  case (Cons obj rest)
  show ?case
  proof (cases "GetStatusViewer (oObject obj)")
    case None
    with Cons show ?thesis by simp
  next
    case (Some v)
    have "fst (pollObject name e (\<lambda>x. view (before @ x # rest)) (\<lambda>d. d) v obj) = None"
      using pollObject_total [OF Some] Cons.prems by simp
    then obtain o' d s1 where po:
      "pollObject name e (\<lambda>x. view (before @ x # rest)) (\<lambda>d. d) v obj = (None, o', d, s1)"
      by (metis fst_conv prod_cases4)
    have "fst (pollSequential name e view (before @ [o']) rest (if \<not> d then False else done)) = None"
      using Cons.IH Cons.prems by simp
    with Some po show ?thesis
      by (auto split: prod.splits)
  qed
qed

lemma pollParallelObjects_total:
  "\<forall>x \<in> set objs. engineError e x = None \<Longrightarrow> \<forall>b. editComment e b = None
   \<Longrightarrow> fst (pollParallelObjects name e view before objs done rodone) = None"
proof (induction objs arbitrary: before "done" rodone)
  case Nil
  then show ?case by simp
next
  case (Cons obj rest)
  show ?case
  proof (cases "GetStatusViewer (oObject obj)")
    case None
    with Cons show ?thesis by simp
  next
    case (Some v)
    have "fst (pollObject name e (\<lambda>x. view (before @ x # rest)) (\<lambda>d. done) v obj) = None"
      using pollObject_total [OF Some] Cons.prems by simp
    then obtain o' d s1 where po:
      "pollObject name e (\<lambda>x. view (before @ x # rest)) (\<lambda>d. done) v obj = (None, o', d, s1)"
      by (metis fst_conv prod_cases4)
    have "fst (pollParallelObjects name e view (before @ [o']) rest (if \<not> d then False else done)
                 (if \<not> d then False else rodone)) = None"
      using Cons.IH Cons.prems by simp
    with Some po show ?thesis
      by (auto split: prod.splits)
  qed
qed

text \<open>A pass without errors: what the objects are afterwards, and the aggregate flag.\<close>

lemma pollSequential_result:
  assumes "\<forall>x \<in> set objs. engineError e x = None" and "\<forall>b. editComment e b = None"
  shows "fst (pollSequential name e view before objs done) = None"
    and "fst (snd (pollSequential name e view before objs done)) = before @ map (sequentialAfter e) objs"
    and "fst (snd (snd (pollSequential name e view before objs done)))
           = (done \<and> (\<forall>x \<in> set objs. engineDone e x))"
proof -
  show t: "fst (pollSequential name e view before objs done) = None"
    using assms by (rule pollSequential_total)
  obtain objs' done' sent where
    "pollSequential name e view before objs done = (None, objs', done', sent)"
    using t by (metis fst_conv prod_cases4)
  then show "fst (snd (pollSequential name e view before objs done)) = before @ map (sequentialAfter e) objs"
    and "fst (snd (snd (pollSequential name e view before objs done)))
           = (done \<and> (\<forall>x \<in> set objs. engineDone e x))"
    using pollSequential_ok by fastforce+
qed

lemma pollParallelObjects_result:
  assumes "\<forall>x \<in> set objs. engineError e x = None" and "\<forall>b. editComment e b = None"
  shows "\<exists>sent. pollParallelObjects name e view before objs done rodone =
           (None, before @ parallelFlags e done objs, done \<and> (\<forall>x \<in> set objs. engineDone e x),
            rodone \<and> (\<forall>x \<in> set objs. engineDone e x), sent)"
proof -
  have t: "fst (pollParallelObjects name e view before objs done rodone) = None"
    using assms by (rule pollParallelObjects_total)
  obtain objs' done' rodone' sent where eq:
    "pollParallelObjects name e view before objs done rodone = (None, objs', done', rodone', sent)"
    using t by (metis fst_conv prod_cases5)
  from pollParallelObjects_ok [OF eq] eq show ?thesis by simp
qed

lemma parallelFlags_append:
  "parallelFlags e done (xs @ ys) =
     parallelFlags e done xs @ parallelFlags e (done \<and> (\<forall>x \<in> set xs. engineDone e x)) ys"
proof (induction xs arbitrary: "done")
  case Nil
  then show ?case by simp
next
  case (Cons x xs)
  have "\<not> polled x \<Longrightarrow> engineDone e x"
    by (simp add: polled_def engineDone_def)
  with Cons show ?case
    by (auto simp: conj_ac)
qed

lemma length_parallelFlags [simp]: "length (parallelFlags e done objs) = length objs"
  by (induction objs arbitrary: "done") auto

lemma oDone_recordStatus [simp]: "oDone (recordStatus t s x) = oDone x"
  by (simp add: recordStatus_def)

lemma parallelFlags_nth:
  "k < length objs \<Longrightarrow> polled (objs ! k)
   \<Longrightarrow> oDone (parallelFlags e done objs ! k) = (done \<and> (\<forall>j<k. engineDone e (objs ! j)))"
proof (induction objs arbitrary: "done" k)
  case Nil
  then show ?case by simp
next
  case (Cons x xs)
  have np: "\<not> polled x \<Longrightarrow> engineDone e x"
    by (simp add: polled_def engineDone_def)
  show ?case
  proof (cases k)
    case 0
    with Cons.prems show ?thesis by simp
  next
    case (Suc m)
    with Cons.prems have m: "m < length xs" "polled (xs ! m)" by simp_all
    have all: "(\<forall>j<Suc m. engineDone e ((x # xs) ! j)) \<longleftrightarrow> (engineDone e x \<and> (\<forall>j<m. engineDone e (xs ! j)))"
      by (auto simp: less_Suc_eq_0_disj)
    show ?thesis
      using Cons.IH [OF m] np Suc all by (auto simp del: all_simps)
  qed
qed

lemma pollParallelRollouts_result:
  assumes "\<forall>x \<in> set (concat (map roObjects rs)). engineError e x = None"
    and "\<forall>b. editComment e b = None"
  shows "\<exists>rs' rodone' sent.
           pollParallelRollouts name e hdr rbefore rs done rodone =
             (None, rs', done \<and> (\<forall>x \<in> set (concat (map roObjects rs)). engineDone e x), rodone', sent)
           \<and> concat (map roObjects rs') =
               concat (map roObjects rbefore) @ parallelFlags e done (concat (map roObjects rs))"
  using assms
proof (induction rs arbitrary: rbefore "done" rodone)
  case Nil
  then show ?case by simp
next
  case (Cons ro rafter)
  let ?view = "\<lambda>objs. hdr\<lparr>rosRollouts := rbefore @ ro\<lparr>roObjects := objs\<rparr> # rafter\<rparr>"
  let ?d1 = "done \<and> (\<forall>x \<in> set (roObjects ro). engineDone e x)"
  let ?rd1 = "rodone \<and> (\<forall>x \<in> set (roObjects ro). engineDone e x)"
  from Cons.prems have e1: "\<forall>x \<in> set (roObjects ro). engineError e x = None"
    and e2: "\<forall>x \<in> set (concat (map roObjects rafter)). engineError e x = None"
    by auto
  obtain sent where po:
    "pollParallelObjects name e ?view [] (roObjects ro) done rodone =
       (None, parallelFlags e done (roObjects ro), ?d1, ?rd1, sent)"
    using pollParallelObjects_result [OF e1 Cons.prems(2), of name ?view "[]" "done" rodone]
    by auto
  define ro' where "ro' = (if ?rd1
      then ro\<lparr>roObjects := parallelFlags e done (roObjects ro), roStatus := ''Complete'', roIcon := doneIcon\<rparr>
      else ro\<lparr>roObjects := parallelFlags e done (roObjects ro)\<rparr>)"
  have ro'obj: "roObjects ro' = parallelFlags e done (roObjects ro)"
    by (simp add: ro'_def)
  obtain rs' rodone' sent' where rec:
    "pollParallelRollouts name e hdr (rbefore @ [ro']) rafter ?d1 ?rd1 =
       (None, rs', ?d1 \<and> (\<forall>x \<in> set (concat (map roObjects rafter)). engineDone e x), rodone', sent')"
    and cc: "concat (map roObjects rs') =
       concat (map roObjects (rbefore @ [ro'])) @ parallelFlags e ?d1 (concat (map roObjects rafter))"
    using Cons.IH [OF e2 Cons.prems(2), of "rbefore @ [ro']" ?d1 ?rd1] by blast
  have "pollParallelRollouts name e hdr rbefore (ro # rafter) done rodone =
      (None, rs', ?d1 \<and> (\<forall>x \<in> set (concat (map roObjects rafter)). engineDone e x), rodone', sent @ sent')"
    using po rec by (simp add: ro'_def Let_def)
  moreover have "concat (map roObjects rs') =
      concat (map roObjects rbefore) @ parallelFlags e done (concat (map roObjects (ro # rafter)))"
    using cc ro'obj by (simp add: parallelFlags_append)
  ultimately show ?case
    by (auto simp: conj_ac)
qed

lemma length_concat_rollouts_result:
  assumes "\<forall>x \<in> set (concat (map roObjects rs)). engineError e x = None"
    and "\<forall>b. editComment e b = None"
  shows "concat (map roObjects (fst (snd (pollParallelRollouts name e hdr [] rs True True))))
           = parallelFlags e True (concat (map roObjects rs))"
    and "fst (pollParallelRollouts name e hdr [] rs True True) = None"
    and "fst (snd (snd (pollParallelRollouts name e hdr [] rs True True)))
           = (\<forall>x \<in> set (concat (map roObjects rs)). engineDone e x)"
  using pollParallelRollouts_result [OF assms, of name hdr "[]" True True]
  by auto

lemma engineDone_unpolled: "\<not> polled x \<Longrightarrow> engineDone e x"
  by (simp add: polled_def engineDone_def)

text \<open>
  C10. In one iteration of the parallel loop that meets no error, over the objects of all
  rollouts in order: the done flag of a polled object is the aggregate flag at the moment
  it is polled, which is true exactly when every object polled earlier in the iteration
  reported done. So it is true up to and including the first object that reports not
  done, and false for every polled object after one that reported not done, whatever
  the object itself reported. All flags agree with the engine's answers exactly when
  every polled object reports done, which is when the aggregate flag ends true and the
  loop stops. In the sequential loop the flag of each polled object is its own answer.
\<close>

theorem parallel_flags_follow_aggregate:
  assumes "os = concat (map roObjects (rosRollouts ros))"
    and "os' = concat (map roObjects (fst (snd (pollParallelRollouts name e ros [] (rosRollouts ros) True True))))"
    and "\<forall>x \<in> set os. engineError e x = None"
    and "\<forall>b. editComment e b = None"
    and "objs' = fst (snd (pollSequential name e view [] objs True))"
    and "\<forall>x \<in> set objs. engineError e x = None"
  shows "length os' = length os
       \<and> (\<forall>k<length os. polled (os ! k) \<longrightarrow>
            (oDone (os' ! k) \<longleftrightarrow> (\<forall>j<k. polled (os ! j) \<longrightarrow> engineDone e (os ! j))))
       \<and> (\<forall>k<length os. polled (os ! k) \<and> (\<forall>j<k. polled (os ! j) \<longrightarrow> engineDone e (os ! j))
            \<longrightarrow> oDone (os' ! k))
       \<and> (\<forall>k<length os. polled (os ! k) \<and> (\<exists>j<k. polled (os ! j) \<and> \<not> engineDone e (os ! j))
            \<longrightarrow> \<not> oDone (os' ! k))
       \<and> ((\<forall>k<length os. polled (os ! k) \<longrightarrow> (oDone (os' ! k) \<longleftrightarrow> engineDone e (os ! k)))
            \<longleftrightarrow> (\<forall>k<length os. polled (os ! k) \<longrightarrow> engineDone e (os ! k)))
       \<and> (fst (snd (snd (pollParallelRollouts name e ros [] (rosRollouts ros) True True)))
            \<longleftrightarrow> (\<forall>k<length os. polled (os ! k) \<longrightarrow> engineDone e (os ! k)))
       \<and> (parallelPollLoop name [e] ros \<noteq> None
            \<longleftrightarrow> (\<forall>k<length os. polled (os ! k) \<longrightarrow> engineDone e (os ! k)))
       \<and> length objs' = length objs
       \<and> (\<forall>k<length objs. polled (objs ! k) \<longrightarrow> (oDone (objs' ! k) \<longleftrightarrow> engineDone e (objs ! k)))"
proof -
  let ?pass = "pollParallelRollouts name e ros [] (rosRollouts ros) True True"
  have errs: "\<forall>x \<in> set (concat (map roObjects (rosRollouts ros))). engineError e x = None"
    using assms(1,3) by simp
  note res = length_concat_rollouts_result [OF errs assms(4), of name ros]
  have os': "os' = parallelFlags e True os"
    using res(1) assms(1,2) by simp
  have len: "length os' = length os"
    by (simp add: os')
  have flag: "oDone (os' ! k) \<longleftrightarrow> (\<forall>j<k. polled (os ! j) \<longrightarrow> engineDone e (os ! j))"
    if "k < length os" "polled (os ! k)" for k
    using parallelFlags_nth [OF that, of e True] engineDone_unpolled [of _ e]
    by (auto simp: os')
  have alldone: "(\<forall>x \<in> set os. engineDone e x) \<longleftrightarrow> (\<forall>k<length os. polled (os ! k) \<longrightarrow> engineDone e (os ! k))"
    using engineDone_unpolled [of _ e] by (auto simp: all_set_conv_all_nth)
  have match: "(\<forall>k<length os. polled (os ! k) \<longrightarrow> (oDone (os' ! k) \<longleftrightarrow> engineDone e (os ! k)))
            \<longleftrightarrow> (\<forall>k<length os. polled (os ! k) \<longrightarrow> engineDone e (os ! k))"
  proof
    assume m: "\<forall>k<length os. polled (os ! k) \<longrightarrow> (oDone (os' ! k) \<longleftrightarrow> engineDone e (os ! k))"
    have "k < length os \<longrightarrow> polled (os ! k) \<longrightarrow> engineDone e (os ! k)" for k
    proof (induction k rule: less_induct)
      case (less k)
      show ?case
      proof (intro impI)
        assume k: "k < length os" and p: "polled (os ! k)"
        have "\<forall>j<k. polled (os ! j) \<longrightarrow> engineDone e (os ! j)"
          using less k by auto
        then have "oDone (os' ! k)"
          using flag [OF k p] by simp
        then show "engineDone e (os ! k)"
          using m k p by simp
      qed
    qed
    then show "\<forall>k<length os. polled (os ! k) \<longrightarrow> engineDone e (os ! k)"
      by simp
  next
    assume d: "\<forall>k<length os. polled (os ! k) \<longrightarrow> engineDone e (os ! k)"
    show "\<forall>k<length os. polled (os ! k) \<longrightarrow> (oDone (os' ! k) \<longleftrightarrow> engineDone e (os ! k))"
      using d flag by auto
  qed
  have agg: "fst (snd (snd ?pass)) \<longleftrightarrow> (\<forall>k<length os. polled (os ! k) \<longrightarrow> engineDone e (os ! k))"
    using res(3) alldone assms(1) by simp
  obtain rs' dn rdn sent where pass: "?pass = (None, rs', dn, rdn, sent)"
    using res(2) by (metis fst_conv prod_cases5)
  have loop: "parallelPollLoop name [e] ros \<noteq> None \<longleftrightarrow> dn"
    using pass assms(4) by (simp add: Let_def)
  have dn: "dn \<longleftrightarrow> (\<forall>k<length os. polled (os ! k) \<longrightarrow> engineDone e (os ! k))"
    using agg pass by simp
  note seq = pollSequential_result [OF assms(6,4), of name view "[]" True]
  have objs': "objs' = map (sequentialAfter e) objs"
    using seq(2) assms(5) by simp
  have slen: "length objs' = length objs"
    by (simp add: objs')
  have sflag: "\<forall>k<length objs. polled (objs ! k) \<longrightarrow> (oDone (objs' ! k) \<longleftrightarrow> engineDone e (objs ! k))"
    by (simp add: objs' sequentialAfter_def)
  show ?thesis
    using len flag match agg loop dn slen sflag by (intro conjI) auto
qed

lemma engine_example:
  "polled (deploymentObject n)"
  "\<not> polled configMapObject"
  "engineError envBUpdating (deploymentObject n) = None"
  "engineError envBUpdating configMapObject = None"
  "engineDone envBUpdating (deploymentObject n) \<longleftrightarrow> n \<noteq> ''b''"
  by (simp_all add: polled_def engineError_def engineDone_def deploymentObject_def configMapObject_def
      envBUpdating_def clusterBUpdating_def DeploymentStatus_def deploymentObserved_def
      deploymentReplicas_def deploymentUpdating_def deploymentReady_def)

theorem parallel_flags_follow_aggregate_witness:
  "oDone (concat (map roObjects (fst (snd (pollParallelRollouts ''demo'' envBUpdating exampleRollouts []
                                             (rosRollouts exampleRollouts) True True)))) ! 1)
   \<and> \<not> engineDone envBUpdating (deploymentObject ''b'')
   \<and> \<not> oDone (concat (map roObjects (fst (snd (pollParallelRollouts ''demo'' envBUpdating exampleRollouts []
                                             (rosRollouts exampleRollouts) True True)))) ! 3)
   \<and> engineDone envBUpdating (deploymentObject ''c'')
   \<and> \<not> oDone (fst (snd (pollSequential ''demo'' envBUpdating (\<lambda>objs. exampleRollouts) []
                            [deploymentObject ''a'', deploymentObject ''b''] True)) ! 1)"
proof -
  let ?os = "[deploymentObject ''a'', deploymentObject ''b'', configMapObject, deploymentObject ''c'']"
  let ?os' = "concat (map roObjects (fst (snd (pollParallelRollouts ''demo'' envBUpdating exampleRollouts []
                                             (rosRollouts exampleRollouts) True True))))"
  let ?objs = "[deploymentObject ''a'', deploymentObject ''b'']"
  let ?objs' = "fst (snd (pollSequential ''demo'' envBUpdating (\<lambda>objs. exampleRollouts) [] ?objs True))"
  have h1: "?os = concat (map roObjects (rosRollouts exampleRollouts))"
    by (simp add: exampleRollouts_def)
  have h3: "\<forall>x \<in> set ?os. engineError envBUpdating x = None"
    by (simp add: engine_example)
  have h4: "\<forall>b. editComment envBUpdating b = None"
    by (simp add: envBUpdating_def)
  have h6: "\<forall>x \<in> set ?objs. engineError envBUpdating x = None"
    by (simp add: engine_example)
  note t = parallel_flags_follow_aggregate [OF h1 refl h3 h4 refl h6]
  from t have p: "\<forall>k<length ?os. polled (?os ! k) \<longrightarrow>
            (oDone (?os' ! k) \<longleftrightarrow> (\<forall>j<k. polled (?os ! j) \<longrightarrow> engineDone envBUpdating (?os ! j)))"
    by blast
  from t have s: "\<forall>k<length ?objs. polled (?objs ! k) \<longrightarrow>
            (oDone (?objs' ! k) \<longleftrightarrow> engineDone envBUpdating (?objs ! k))"
    by blast
  have a: "oDone (?os' ! 1)"
    using p [rule_format, of 1] by (simp add: engine_example)
  have nb: "\<not> (\<forall>j<3. polled (?os ! j) \<longrightarrow> engineDone envBUpdating (?os ! j))"
  proof
    assume "\<forall>j<3. polled (?os ! j) \<longrightarrow> engineDone envBUpdating (?os ! j)"
    then have "polled (?os ! 1) \<longrightarrow> engineDone envBUpdating (?os ! 1)"
      by (rule allE [where x = 1]) simp
    then show False
      by (simp add: engine_example)
  qed
  have b: "\<not> oDone (?os' ! 3)"
    using p [rule_format, of 3] nb by (simp add: engine_example)
  have c: "\<not> oDone (?objs' ! 1)"
    using s [rule_format, of 1] by (simp add: engine_example)
  show ?thesis
    using a b c by (simp add: engine_example)
qed








lemma engineMessage_recorded [simp]:
  "engineMessage e recordedA = engineMessage e (deploymentObject ''a'')"
  "engineMessage e outdatedB = engineMessage e (deploymentObject ''b'')"
  "engineError e recordedA = engineError e (deploymentObject ''a'')"
  "engineError e outdatedB = engineError e (deploymentObject ''b'')"
  "polled recordedA" "polled outdatedB"
  by (simp_all add: engineMessage_def engineError_def polled_def recordedA_def outdatedB_def
      deploymentObject_def)




lemma pollSequential_unpolled:
  "\<forall>x \<in> set objs. \<not> polled x
   \<Longrightarrow> pollSequential name e view before objs done = (None, before @ map notApplicable objs, done, [])"
  by (induction objs arbitrary: before) (auto simp: polled_def notApplicable_def)

lemma pollParallelObjects_unpolled:
  "\<forall>x \<in> set objs. \<not> polled x
   \<Longrightarrow> pollParallelObjects name e view before objs done rodone
         = (None, before @ map notApplicable objs, done, rodone, [])"
  by (induction objs arbitrary: before) (auto simp: polled_def notApplicable_def)

text \<open>
  C8. An object whose decoded type is none of the ten Deployment, StatefulSet and
  DaemonSet types has no status viewer. Both polling loops then record the rollout
  status "NA" and done for it and go on to the next object: no comment is sent and the
  aggregate flags stay as they are. The outcome of a pass over such objects does not
  depend on the cluster at all, so the accessor is never asked about them.
\<close>

theorem unsupported_kind_not_applicable:
  assumes "oObject obj \<notin>
             {ExtensionsV1beta1Deployment, AppsV1beta1Deployment, AppsV1beta2Deployment,
              AppsV1Deployment, AppsV1beta1StatefulSet, AppsV1beta2StatefulSet, AppsV1StatefulSet,
              ExtensionsV1beta1DaemonSet, AppsV1beta2DaemonSet, AppsV1DaemonSet}"
  shows "GetStatusViewer (oObject obj) = None
       \<and> pollSequential name e view before (obj # rest) done =
           pollSequential name e view (before @ [obj\<lparr>oRolloutStatus := ''NA'', oDone := True\<rparr>]) rest done
       \<and> pollParallelObjects name e view before (obj # rest) done rodone =
           pollParallelObjects name e view (before @ [obj\<lparr>oRolloutStatus := ''NA'', oDone := True\<rparr>])
             rest done rodone
       \<and> pollSequential name e view before [obj] done =
           (None, before @ [obj\<lparr>oRolloutStatus := ''NA'', oDone := True\<rparr>], done, [])
       \<and> pollParallelObjects name e view before [obj] done rodone =
           (None, before @ [obj\<lparr>oRolloutStatus := ''NA'', oDone := True\<rparr>], done, rodone, [])
       \<and> ((\<forall>x \<in> set rest. GetStatusViewer (oObject x) = None) \<longrightarrow>
            pollSequential name e view before (obj # rest) done =
              pollSequential name e' view before (obj # rest) done
            \<and> pollParallelObjects name e view before (obj # rest) done rodone =
              pollParallelObjects name e' view before (obj # rest) done rodone)"
proof -
  have v: "GetStatusViewer (oObject obj) = None"
    using assms by (cases "oObject obj") simp_all
  then have np: "\<not> polled obj"
    by (simp add: polled_def)
  have indep: "pollSequential name e view before (obj # rest) done =
              pollSequential name e' view before (obj # rest) done
            \<and> pollParallelObjects name e view before (obj # rest) done rodone =
              pollParallelObjects name e' view before (obj # rest) done rodone"
    if "\<forall>x \<in> set rest. GetStatusViewer (oObject x) = None"
  proof -
    from that np have all: "\<forall>x \<in> set (obj # rest). \<not> polled x"
      by (simp add: polled_def)
    show ?thesis
      using pollSequential_unpolled [OF all] pollParallelObjects_unpolled [OF all] by simp
  qed
  show ?thesis
    using v indep by simp
qed

theorem unsupported_kind_not_applicable_witness:
  "pollSequential ''demo'' envBUpdating viewExample [] [configMapObject] True =
     (None, [configMapObject\<lparr>oRolloutStatus := ''NA'', oDone := True\<rparr>], True, [])
   \<and> GetStatusViewer (oObject configMapObject) = None"
proof -
  have h: "oObject configMapObject \<notin>
             {ExtensionsV1beta1Deployment, AppsV1beta1Deployment, AppsV1beta2Deployment,
              AppsV1Deployment, AppsV1beta1StatefulSet, AppsV1beta2StatefulSet, AppsV1StatefulSet,
              ExtensionsV1beta1DaemonSet, AppsV1beta2DaemonSet, AppsV1DaemonSet}"
    by (simp add: configMapObject_def)
  show ?thesis
    using unsupported_kind_not_applicable [OF h, of "''demo''" envBUpdating viewExample "[]" "[]" True]
    by simp
qed

lemma beforeActions_answers:
  fixes g :: "'st GitClient"
  assumes "b1 = (if BeforeAddLabels a \<noteq> [] then AddLabelsToIssue g st (aIssueNum a) (BeforeAddLabels a)
            else (None, st))"
    and "bm2 = RemoveLabels g (snd b1) (aIssueNum a) (BeforeRemoveLabels a)"
    and "b3 = (if BeforeAddAssignees a \<noteq> []
            then AddAssigneesToIssue g (snd bm2) (aIssueNum a) (BeforeAddAssignees a)
            else (None, snd bm2))"
    and "bm4 = RemoveAssigneesFromIssue g (snd b3) (aIssueNum a) (BeforeRemoveAssignees a)"
    and "b5 = (if BeforeSetState a \<noteq> [] then EditIssueState g (snd bm4) (aIssueNum a) (BeforeSetState a)
            else (None, snd bm4))"
  shows "(\<forall>err. fst b1 = Some err \<longrightarrow> beforeActions g a st = (Some (FailedToAddLabels (BeforeAddLabels a) err), snd b1))
       \<and> (\<forall>err. fst b1 = None \<and> fst b3 = Some err \<longrightarrow>
            beforeActions g a st = (Some (FailedToAddAssignees (BeforeAddAssignees a) err), snd b3))
       \<and> (\<forall>err. fst b1 = None \<and> fst b3 = None \<and> fst b5 = Some err \<longrightarrow>
            beforeActions g a st = (Some (FailedToSetState err), snd b5))
       \<and> (fst b1 = None \<and> fst b3 = None \<and> fst b5 = None \<longrightarrow> beforeActions g a st = (None, snd b5))
       \<and> (fst (beforeActions g a st) = None \<longleftrightarrow> fst b1 = None \<and> fst b3 = None \<and> fst b5 = None)"
proof -
  obtain e1 s1 where p1: "b1 = (e1, s1)" by (cases b1)
  obtain i2 s2 where p2: "bm2 = (i2, s2)" by (cases bm2)
  obtain e3 s3 where p3: "b3 = (e3, s3)" by (cases b3)
  obtain i4 s4 where p4: "bm4 = (i4, s4)" by (cases bm4)
  obtain e5 s5 where p5: "b5 = (e5, s5)" by (cases b5)
  note eqs = assms [unfolded p1 p2 p3 p4 p5, simplified, symmetric]
  have main: "beforeActions g a st =
      (case e1 of
         Some err \<Rightarrow> (Some (FailedToAddLabels (BeforeAddLabels a) err), s1)
       | None \<Rightarrow>
           (case e3 of
              Some err \<Rightarrow> (Some (FailedToAddAssignees (BeforeAddAssignees a) err), s3)
            | None \<Rightarrow> (case e5 of Some err \<Rightarrow> (Some (FailedToSetState err), s5) | None \<Rightarrow> (None, s5))))"
    using eqs
    by (auto simp: beforeActions_def AddLabels_def AddAssignees_def RemoveAssignees_def UpdateIssueState_def
        split: option.splits if_splits)
  show ?thesis
    unfolding main p1 p2 p3 p4 p5 by (auto split: option.splits)
qed

lemma afterActions_answers:
  fixes g :: "'st GitClient"
  assumes "c1 = (if AfterAddLabels a \<noteq> [] then AddLabelsToIssue g sa (aIssueNum a) (AfterAddLabels a)
            else (None, sa))"
    and "cm2 = RemoveLabels g (snd c1) (aIssueNum a) (AfterRemoveLabels a)"
    and "c3 = (if AfterAddAssignees a \<noteq> []
            then AddAssigneesToIssue g (snd cm2) (aIssueNum a) (AfterAddAssignees a)
            else (None, snd cm2))"
    and "cm4 = RemoveAssigneesFromIssue g (snd c3) (aIssueNum a) (AfterRemoveAssignees a)"
    and "c5 = (if AfterSetState a \<noteq> [] then EditIssueState g (snd cm4) (aIssueNum a) (AfterSetState a)
            else (None, snd cm4))"
  shows "(\<forall>err. fst c1 = Some err \<longrightarrow> afterActions g a sa = (Some (err), snd c1))
       \<and> (\<forall>err. fst c1 = None \<and> fst c3 = Some err \<longrightarrow>
            afterActions g a sa = (Some (FailedToSetAssignees (AfterAddAssignees a) err), snd c3))
       \<and> (\<forall>err. fst c1 = None \<and> fst c3 = None \<and> fst c5 = Some err \<longrightarrow>
            afterActions g a sa = (Some (FailedToSetIssueState err), snd c5))
       \<and> (fst c1 = None \<and> fst c3 = None \<and> fst c5 = None \<longrightarrow> afterActions g a sa = (None, snd c5))
       \<and> (fst (afterActions g a sa) = None \<longleftrightarrow> fst c1 = None \<and> fst c3 = None \<and> fst c5 = None)"
proof -
  obtain e1 s1 where p1: "c1 = (e1, s1)" by (cases c1)
  obtain i2 s2 where p2: "cm2 = (i2, s2)" by (cases cm2)
  obtain e3 s3 where p3: "c3 = (e3, s3)" by (cases c3)
  obtain i4 s4 where p4: "cm4 = (i4, s4)" by (cases cm4)
  obtain e5 s5 where p5: "c5 = (e5, s5)" by (cases c5)
  note eqs = assms [unfolded p1 p2 p3 p4 p5, simplified, symmetric]
  have main: "afterActions g a sa =
      (case e1 of
         Some err \<Rightarrow> (Some (err), s1)
       | None \<Rightarrow>
           (case e3 of
              Some err \<Rightarrow> (Some (FailedToSetAssignees (AfterAddAssignees a) err), s3)
            | None \<Rightarrow> (case e5 of Some err \<Rightarrow> (Some (FailedToSetIssueState err), s5) | None \<Rightarrow> (None, s5))))"
    using eqs
    by (auto simp: afterActions_def AddLabels_def AddAssignees_def RemoveAssignees_def UpdateIssueState_def
        split: option.splits if_splits)
  show ?thesis
    unfolding main p1 p2 p3 p4 p5 by (auto split: option.splits)
qed

text \<open>
  C9. In the before actions and in the after actions alike, with the answers of the
  calls named in the order the step makes them (add labels, remove labels, add
  assignees, remove assignees, set state, each on the tracker state the previous call
  left, an addition or a setting of the state being made only when there is something
  to add or set): the step returns an error exactly when the addition of labels, the
  addition of assignees or the setting of the state answers with an error, and that
  error is the one returned; the answers of the two removals have no part in the
  result, so a removal that fails is swallowed. \<open>Run\<close> returns the error of the
  before actions, and after a rollout without error it returns what the after actions
  return.
\<close>

theorem additions_fatal_removals_swallowed:
  fixes g :: "'st GitClient"
  assumes "b1 = (if BeforeAddLabels a \<noteq> [] then AddLabelsToIssue g st (aIssueNum a) (BeforeAddLabels a)
            else (None, st))"
    and "bm2 = RemoveLabels g (snd b1) (aIssueNum a) (BeforeRemoveLabels a)"
    and "b3 = (if BeforeAddAssignees a \<noteq> []
            then AddAssigneesToIssue g (snd bm2) (aIssueNum a) (BeforeAddAssignees a)
            else (None, snd bm2))"
    and "bm4 = RemoveAssigneesFromIssue g (snd b3) (aIssueNum a) (BeforeRemoveAssignees a)"
    and "b5 = (if BeforeSetState a \<noteq> [] then EditIssueState g (snd bm4) (aIssueNum a) (BeforeSetState a)
            else (None, snd bm4))"
    and "c1 = (if AfterAddLabels a \<noteq> [] then AddLabelsToIssue g sa (aIssueNum a) (AfterAddLabels a)
            else (None, sa))"
    and "cm2 = RemoveLabels g (snd c1) (aIssueNum a) (AfterRemoveLabels a)"
    and "c3 = (if AfterAddAssignees a \<noteq> []
            then AddAssigneesToIssue g (snd cm2) (aIssueNum a) (AfterAddAssignees a)
            else (None, snd cm2))"
    and "cm4 = RemoveAssigneesFromIssue g (snd c3) (aIssueNum a) (AfterRemoveAssignees a)"
    and "c5 = (if AfterSetState a \<noteq> [] then EditIssueState g (snd cm4) (aIssueNum a) (AfterSetState a)
            else (None, snd cm4))"
  shows "(\<forall>err. fst b1 = Some err \<longrightarrow> beforeActions g a st = (Some (FailedToAddLabels (BeforeAddLabels a) err), snd b1))
       \<and> (\<forall>err. fst b1 = None \<and> fst b3 = Some err \<longrightarrow>
            beforeActions g a st = (Some (FailedToAddAssignees (BeforeAddAssignees a) err), snd b3))
       \<and> (\<forall>err. fst b1 = None \<and> fst b3 = None \<and> fst b5 = Some err \<longrightarrow>
            beforeActions g a st = (Some (FailedToSetState err), snd b5))
       \<and> (fst b1 = None \<and> fst b3 = None \<and> fst b5 = None \<longrightarrow> beforeActions g a st = (None, snd b5))
       \<and> (fst (beforeActions g a st) = None \<longleftrightarrow> fst b1 = None \<and> fst b3 = None \<and> fst b5 = None)
       \<and> (\<forall>err. fst c1 = Some err \<longrightarrow> afterActions g a sa = (Some (err), snd c1))
       \<and> (\<forall>err. fst c1 = None \<and> fst c3 = Some err \<longrightarrow>
            afterActions g a sa = (Some (FailedToSetAssignees (AfterAddAssignees a) err), snd c3))
       \<and> (\<forall>err. fst c1 = None \<and> fst c3 = None \<and> fst c5 = Some err \<longrightarrow>
            afterActions g a sa = (Some (FailedToSetIssueState err), snd c5))
       \<and> (fst c1 = None \<and> fst c3 = None \<and> fst c5 = None \<longrightarrow> afterActions g a sa = (None, snd c5))
       \<and> (fst (afterActions g a sa) = None \<longleftrightarrow> fst c1 = None \<and> fst c3 = None \<and> fst c5 = None)
       \<and> (fst (beforeActions g a st) \<noteq> None
            \<longrightarrow> Run g a None rolloutPhase st = Some (beforeActions g a st))
       \<and> (fst (beforeActions g a st) = None \<and> rolloutPhase (snd (beforeActions g a st)) = Some (None, st2)
            \<longrightarrow> Run g a None rolloutPhase st = Some (afterActions g a st2))"
proof -
  note b = beforeActions_answers [OF assms(1-5)]
  note c = afterActions_answers [OF assms(6-10)]
  have r1: "fst (beforeActions g a st) \<noteq> None
            \<longrightarrow> Run g a None rolloutPhase st = Some (beforeActions g a st)"
    by (cases "beforeActions g a st") (auto simp: Run_def)
  have r2: "fst (beforeActions g a st) = None \<and> rolloutPhase (snd (beforeActions g a st)) = Some (None, st2)
            \<longrightarrow> Run g a None rolloutPhase st = Some (afterActions g a st2)"
    by (cases "beforeActions g a st") (auto simp: Run_def)
  show ?thesis
    using b c r1 r2 by (intro conjI) (elim conjE, assumption)+
qed

theorem additions_fatal_removals_swallowed_witness:
  "fst (RemoveLabels removalsFail {''rolling-out'', ''rolled-out''} 42 [''rolled-out'']) \<noteq> None
   \<and> fst (RemoveAssigneesFromIssue removalsFail {''rolling-out'', ''rolled-out''} 42 [''bot'']) \<noteq> None
   \<and> beforeActions removalsFail labellingApplier {''rolled-out''} = (None, {''rolling-out'', ''rolled-out''})
   \<and> afterActions removalsFail labellingApplier {''rolling-out'', ''rolled-out''} =
       (None, {''rolling-out'', ''rolled-out''})
   \<and> Run removalsFail labellingApplier None (\<lambda>s. Some (None, s)) {''rolled-out''} =
       Some (None, {''rolling-out'', ''rolled-out''})
   \<and> beforeActions assigneeRefused (labellingApplier\<lparr>BeforeAddAssignees := [''ghost'']\<rparr>) {} =
       (Some (FailedToAddAssignees [''ghost''] (External ''422 Unprocessable Entity'')), {''rolling-out''})
   \<and> afterActions assigneeRefused (labellingApplier\<lparr>BeforeAddAssignees := [''ghost'']\<rparr>) {''rolling-out''} =
       (Some (FailedToSetIssueState (External ''403 Forbidden'')), {''rolled-out''})
   \<and> Run assigneeRefused (labellingApplier\<lparr>BeforeAddAssignees := [''ghost'']\<rparr>) None
         (\<lambda>s. Some (None, s)) {} =
       Some (Some (FailedToAddAssignees [''ghost''] (External ''422 Unprocessable Entity'')), {''rolling-out''})"
proof -
  let ?a = "labellingApplier\<lparr>BeforeAddAssignees := [''ghost'']\<rparr>"
  note t1 = additions_fatal_removals_swallowed
    [where g = removalsFail and a = labellingApplier and st = "{''rolled-out''}"
       and sa = "{''rolling-out'', ''rolled-out''}"
       and rolloutPhase = "\<lambda>s. Some (None, s)" and ?st2.0 = "{''rolling-out'', ''rolled-out''}",
      OF refl refl refl refl refl refl refl refl refl refl]
  note t2 = additions_fatal_removals_swallowed
    [where g = assigneeRefused and a = "?a" and st = "{}" and sa = "{''rolling-out''}"
       and rolloutPhase = "\<lambda>s. Some (None, s)" and ?st2.0 = "{}",
      OF refl refl refl refl refl refl refl refl refl refl]
  have w0: "fst (RemoveLabels removalsFail {''rolling-out'', ''rolled-out''} 42 [''rolled-out'']) \<noteq> None"
    "fst (RemoveAssigneesFromIssue removalsFail {''rolling-out'', ''rolled-out''} 42 [''bot'']) \<noteq> None"
    by (simp_all add: removalsFail_def)
  have w1: "beforeActions removalsFail labellingApplier {''rolled-out''} = (None, {''rolling-out'', ''rolled-out''})"
    using t1 by (simp add: removalsFail_def labellingApplier_def insert_commute)
  have w1a: "afterActions removalsFail labellingApplier {''rolling-out'', ''rolled-out''} =
       (None, {''rolling-out'', ''rolled-out''})"
    using t1 by (simp add: removalsFail_def labellingApplier_def insert_commute)
  have w1r: "Run removalsFail labellingApplier None (\<lambda>s. Some (None, s)) {''rolled-out''} =
       Some (afterActions removalsFail labellingApplier {''rolling-out'', ''rolled-out''})"
    using t1 w1 by simp
  have w2: "beforeActions assigneeRefused ?a {} =
       (Some (FailedToAddAssignees [''ghost''] (External ''422 Unprocessable Entity'')), {''rolling-out''})"
    using t2 by (simp add: assigneeRefused_def labellingApplier_def)
  have w3: "afterActions assigneeRefused ?a {''rolling-out''} =
       (Some (FailedToSetIssueState (External ''403 Forbidden'')), {''rolled-out''})"
    using t2 by (simp add: assigneeRefused_def labellingApplier_def)
  have w4: "Run assigneeRefused ?a None (\<lambda>s. Some (None, s)) {} = Some (beforeActions assigneeRefused ?a {})"
    using t2 w2 by simp
  show ?thesis
    using w0 w1 w1a w1r w2 w3 w4 by simp
qed

subsection \<open>IssueStatusAggregator\<close>

lemma HasAll_subset: "HasAll s items \<longleftrightarrow> set items \<subseteq> s"
  by (induction items) auto

lemma updateReporters_state:
  "snd (updateReporters s rs state) =
     (if rs = [] then state
      else if set (srCompleteLabels (last rs)) \<subseteq> s then ''closed'' else ''open'')"
proof (induction rs arbitrary: state)
  case Nil
  then show ?case by simp
next
  case (Cons t ts)
  have step: "snd (updateReporters s (t # ts) state) =
      snd (updateReporters s ts (if HasAll s (srCompleteLabels t) then ''closed'' else ''open''))"
    by (simp split: prod.splits)
  show ?case
  proof (cases "ts = []")
    case True
    then show ?thesis
      by (simp add: HasAll_subset)
  next
    case False
    then show ?thesis
      unfolding step using Cons.IH by simp
  qed
qed

lemma updateReporters_reporters:
  "fst (updateReporters s rs state) = map (evaluateReporter s) rs"
proof (induction rs arbitrary: state)
  case Nil
  then show ?case by simp
next
  case (Cons t ts)
  show ?case
    using Cons.IH [of "''closed''"] Cons.IH [of "''open''"]
    by (auto simp: evaluateReporter_def split: prod.splits)
qed

lemma updateReporters_phase:
  "i < length rs \<Longrightarrow>
   srStatus (fst (updateReporters s rs state) ! i) =
     (if set (srCompleteLabels (rs ! i)) \<subseteq> s then ''Complete''
      else if set (srInProgressLabels (rs ! i)) \<subseteq> s then ''In Progress'' else ''Pending'')"
  by (simp add: updateReporters_reporters evaluateReporter_def HasAll_subset)

text \<open>
  C3. When the tracker returns the tracking issue and at least one reporter is configured,
  \<open>UpdateIssueStatus\<close> sends an edit whose state is that of the last reporter in
  configuration order: "closed" if the labels of the issue include all complete labels
  of that reporter, "open" otherwise. The phase computed for each reporter, Complete, In
  Progress or Pending, is written to the reporter and has no part in the state.
\<close>

theorem last_reporter_decides_state:
  assumes "IssuesGet t (issueGetNumber (mIssue m)) = Inr issue"
    and "mStatusReporters m \<noteq> []"
  shows "(\<exists>req. snd (snd (UpdateIssueStatus t m)) = Some req
            \<and> irState req =
                Some (if set (srCompleteLabels (last (mStatusReporters m))) \<subseteq> set (iLabels issue)
                      then ''closed'' else ''open''))
       \<and> length (mStatusReporters (fst (snd (UpdateIssueStatus t m)))) = length (mStatusReporters m)
       \<and> (\<forall>i<length (mStatusReporters m).
            srStatus (mStatusReporters (fst (snd (UpdateIssueStatus t m))) ! i) =
              (if set (srCompleteLabels (mStatusReporters m ! i)) \<subseteq> set (iLabels issue) then ''Complete''
               else if set (srInProgressLabels (mStatusReporters m ! i)) \<subseteq> set (iLabels issue)
                    then ''In Progress'' else ''Pending''))"
proof -
  obtain rs' state where ur:
    "updateReporters (set (iLabels issue)) (mStatusReporters m) [] = (rs', state)"
    by (cases "updateReporters (set (iLabels issue)) (mStatusReporters m) []") auto
  have st: "state = (if set (srCompleteLabels (last (mStatusReporters m))) \<subseteq> set (iLabels issue)
                      then ''closed'' else ''open'')"
    using updateReporters_state [of "set (iLabels issue)" "mStatusReporters m" "[]"] ur assms(2)
    by simp
  have len: "length rs' = length (mStatusReporters m)"
    using updateReporters_reporters [of "set (iLabels issue)" "mStatusReporters m" "[]"] ur by simp
  have ph: "\<forall>i<length (mStatusReporters m). srStatus (rs' ! i) =
              (if set (srCompleteLabels (mStatusReporters m ! i)) \<subseteq> set (iLabels issue) then ''Complete''
               else if set (srInProgressLabels (mStatusReporters m ! i)) \<subseteq> set (iLabels issue)
                    then ''In Progress'' else ''Pending'')"
    using updateReporters_phase [of _ "mStatusReporters m" "set (iLabels issue)" "[]"] ur by simp
  have req: "\<exists>req. snd (snd (UpdateIssueStatus t m)) = Some req \<and> irState req = Some state"
    using assms(1) ur by (auto simp: UpdateIssueStatus_def Let_def split: sum.splits)
  have rs: "mStatusReporters (fst (snd (UpdateIssueStatus t m))) = rs'"
    using assms(1) ur by (auto simp: UpdateIssueStatus_def Let_def split: sum.splits)
  show ?thesis
    using req st len ph rs by simp
qed

theorem last_reporter_decides_state_witness:
  "(\<exists>req. snd (snd (UpdateIssueStatus trackerR1R2 managerR1R2)) = Some req \<and> irState req = Some ''open'')
   \<and> srStatus (mStatusReporters (fst (snd (UpdateIssueStatus trackerR1R2 managerR1R2))) ! 0) = ''Complete''
   \<and> srStatus (mStatusReporters (fst (snd (UpdateIssueStatus trackerR1R2 managerR1R2))) ! 1) = ''Pending''"
proof -
  have h1: "IssuesGet trackerR1R2 (issueGetNumber (mIssue managerR1R2)) = Inr trackingIssue"
    by (simp add: trackerR1R2_def managerR1R2_def issueGetNumber_def trackingIssue_def)
  have h2: "mStatusReporters managerR1R2 \<noteq> []"
    by (simp add: managerR1R2_def)
  note t = last_reporter_decides_state [OF h1 h2]
  have rs: "mStatusReporters managerR1R2 = [reporterR1, reporterR2]"
    by (simp add: managerR1R2_def)
  from t have a: "\<exists>req. snd (snd (UpdateIssueStatus trackerR1R2 managerR1R2)) = Some req
      \<and> irState req = Some ''open''"
    by (simp add: rs reporterR2_def trackingIssue_def)
  from t have b: "\<forall>i<length (mStatusReporters managerR1R2).
            srStatus (mStatusReporters (fst (snd (UpdateIssueStatus trackerR1R2 managerR1R2))) ! i) =
              (if set (srCompleteLabels (mStatusReporters managerR1R2 ! i)) \<subseteq> set (iLabels trackingIssue)
               then ''Complete''
               else if set (srInProgressLabels (mStatusReporters managerR1R2 ! i)) \<subseteq> set (iLabels trackingIssue)
                    then ''In Progress'' else ''Pending'')"
    by blast
  have b0: "srStatus (mStatusReporters (fst (snd (UpdateIssueStatus trackerR1R2 managerR1R2))) ! 0) = ''Complete''"
    using b [rule_format, of 0] by (simp add: rs reporterR1_def trackingIssue_def)
  have b1: "srStatus (mStatusReporters (fst (snd (UpdateIssueStatus trackerR1R2 managerR1R2))) ! 1) = ''Pending''"
    using b [rule_format, of 1] by (simp add: rs reporterR2_def trackingIssue_def)
  show ?thesis
    using a b0 b1 by simp
qed

subsection \<open>Decimal numerals and the marker format\<close>

lemma digitChar_props:
  assumes "d < 10"
  shows "isDigit (digitChar d)" and "digitVal (digitChar d) = d"
    and "digitChar d \<noteq> CHR ''-''" and "digitChar d \<noteq> CHR ''+''"
proof -
  from assms have "d = 0 \<or> d = 1 \<or> d = 2 \<or> d = 3 \<or> d = 4 \<or> d = 5 \<or> d = 6
      \<or> d = 7 \<or> d = 8 \<or> d = 9"
    by arith
  then show "isDigit (digitChar d)" and "digitVal (digitChar d) = d"
    and "digitChar d \<noteq> CHR ''-''" and "digitChar d \<noteq> CHR ''+''"
    by (elim disjE; simp add: digitChar_def isDigit_def digitVal_def)+
qed

lemma digitsOf_nonempty: "digitsOf n \<noteq> []"
  by (subst digitsOf.simps) simp

lemma digitsOf_digits: "list_all isDigit (digitsOf n)"
proof (induction n rule: digitsOf.induct)
  case (1 n)
  show ?case
  proof (cases "n < 10")
    case True
    then show ?thesis
      by (subst digitsOf.simps) (simp add: digitChar_props)
  next
    case False
    with 1 show ?thesis
      by (subst digitsOf.simps) (simp add: digitChar_props)
  qed
qed

lemma decimalValue_snoc: "decimalValue (ds @ [c]) = 10 * decimalValue ds + digitVal c"
  by (simp add: decimalValue_def)

lemma decimalValue_digitsOf: "decimalValue (digitsOf n) = n"
proof (induction n rule: digitsOf.induct)
  case (1 n)
  show ?case
  proof (cases "n < 10")
    case True
    then show ?thesis
      by (subst digitsOf.simps) (simp add: decimalValue_def digitChar_props)
  next
    case False
    with 1 have "decimalValue (digitsOf (n div 10)) = n div 10" by simp
    with False show ?thesis
      by (subst digitsOf.simps) (simp add: decimalValue_snoc digitChar_props)
  qed
qed

lemma hd_digitsOf: "\<exists>c r. digitsOf n = c # r \<and> isDigit c \<and> c \<noteq> CHR ''-'' \<and> c \<noteq> CHR ''+''"
proof -
  obtain c r where cr: "digitsOf n = c # r"
    using digitsOf_nonempty [of n] by (cases "digitsOf n") auto
  have d: "isDigit c"
    using digitsOf_digits [of n] cr by simp
  then have "c \<noteq> CHR ''-''" "c \<noteq> CHR ''+''"
    by (auto simp: isDigit_def)
  with cr d show ?thesis by blast
qed

lemma Atoi_showInt:
  assumes "0 \<le> N" and "N < 2 ^ 63"
  shows "Atoi (showInt N) = Inr N"
proof -
  let ?n = "nat N"
  obtain c r where cr: "digitsOf ?n = c # r" and c: "c \<noteq> CHR ''-''" "c \<noteq> CHR ''+''"
    using hd_digitsOf [of ?n] by blast
  have pu: "parseUnsigned (digitsOf ?n) = Some ?n"
    by (simp add: parseUnsigned_def digitsOf_nonempty digitsOf_digits decimalValue_digitsOf)
  have lt: "?n < 2 ^ 63"
    using assms by (simp add: nat_less_iff)
  have "ParseInt ''Atoi'' (c # r) = Inr (int ?n)"
    using pu c lt unfolding cr by (simp add: ParseInt_def)
  then show ?thesis
    using assms(1) cr by (simp add: Atoi_def showInt_def)
qed

lemma htmlEscape_lowerAlnum: "list_all isLowerAlnum h \<Longrightarrow> htmlEscape h = h"
proof (induction h)
  case Nil
  then show ?case by (simp add: htmlEscape_def)
next
  case (Cons c h)
  then have "htmlEscapeChar c = [c]"
    by (auto simp: isLowerAlnum_def htmlEscapeChar_def)
  with Cons show ?case
    by (simp add: htmlEscape_def)
qed

lemma takeWhile_run: "list_all P xs \<Longrightarrow> \<not> P y \<Longrightarrow> takeWhile P (xs @ y # ys) = xs"
  by (induction xs) auto

lemma dropWhile_run: "list_all P xs \<Longrightarrow> \<not> P y \<Longrightarrow> dropWhile P (xs @ y # ys) = y # ys"
  by (induction xs) auto

lemma stripPrefix_append: "stripPrefix p (p @ s) = Some s"
  by (induction p) auto

text \<open>A body that starts with the two marker lines matches at its head.\<close>

lemma rolloutMatchAt_markers:
  assumes "ds \<noteq> []" "list_all isDigit ds" "h \<noteq> []" "list_all isLowerAlnum h"
  shows "rolloutMatchAt (''[pull-request]: #'' @ ds @ ''\<newline>'' @ ''[commit]: '' @ h @ ''\<newline>'' @ rest)
           = Some (ds, h)"
proof -
  have nd: "\<not> isDigit (CHR 0x0A)" "\<not> isLowerAlnum (CHR 0x0A)" "isRegexSpace (CHR 0x0A)"
    "\<not> isRegexSpace (CHR ''['')"
    by (simp_all add: isDigit_def isLowerAlnum_def isRegexSpace_def)
  let ?r0 = "ds @ CHR 0x0A # (''[commit]: '' @ h @ CHR 0x0A # rest)"
  have s0: "stripPrefix ''[pull-request]: #'' (''[pull-request]: #'' @ ?r0) = Some ?r0"
    by (rule stripPrefix_append)
  have t0: "takeWhile isDigit ?r0 = ds"
    using assms(2) nd(1) by (rule takeWhile_run)
  have d0: "dropWhile isDigit ?r0 = CHR 0x0A # (''[commit]: '' @ h @ CHR 0x0A # rest)"
    using assms(2) nd(1) by (rule dropWhile_run)
  let ?r3 = "h @ CHR 0x0A # rest"
  have s3: "stripPrefix ''[commit]: '' (''[commit]: '' @ ?r3) = Some ?r3"
    by (rule stripPrefix_append)
  have t3: "takeWhile isLowerAlnum ?r3 = h"
    using assms(4) nd(2) by (rule takeWhile_run)
  have d3: "dropWhile isLowerAlnum ?r3 = CHR 0x0A # rest"
    using assms(4) nd(2) by (rule dropWhile_run)
  have "rolloutMatchAt (''[pull-request]: #'' @ ?r0) = Some (ds, h)"
    unfolding rolloutMatchAt_def s0 option.case Let_def t0 d0
    using assms(1,3) nd(3,4) s3 t3 d3 by simp
  then show ?thesis by simp
qed

text \<open>
  C6. For a pull-request number from 0 up to the largest 64-bit \<open>int\<close> and a non-empty
  commit hash of lower-case letters and digits, the body rendered by \<open>bodyTemplate\<close>
  starts with the two marker lines; \<open>rolloutRegex\<close> matches it, its two groups are the
  decimal numeral of the number and the hash, and \<open>Atoi\<close> reads the number back. In
  issue mode a poller that finds this body on the newest issue adopts the pull request
  of that number and the hash as its commit.
\<close>

theorem marker_round_trip:
  assumes "prGetNumber (mPullRequest m) = N" and "0 \<le> N" and "N < 2 ^ 63"
    and "mCommit m = h" and "h \<noteq> []" and "list_all isLowerAlnum h"
  shows "(\<exists>rest. bodyTemplate m =
            ''[pull-request]: #'' @ showInt N @ ''\<newline>'' @ ''[commit]: '' @ h @ ''\<newline>'' @ rest)
       \<and> rolloutMatchString (bodyTemplate m)
       \<and> rolloutFindSubmatch (bodyTemplate m) = Some (showInt N, h)
       \<and> Atoi (showInt N) = Inr N
       \<and> (ListByRepo t (issueOptions p) = Inr (newest # others) \<and> iBody newest = bodyTemplate m
            \<and> pIssue p = None \<and> PullRequestsGet t N = Inr pr
            \<longrightarrow> fst (SyncIssues t p) = Inr (iState newest \<noteq> ''closed'')
                \<and> pPr (snd (SyncIssues t p)) = Some pr
                \<and> pCommit (snd (SyncIssues t p)) = h
                \<and> pIssue (snd (SyncIssues t p)) = Some newest)"
proof -
  let ?rest = "''\<newline>'' @ ''Rollout #'' @ showInt N @ ''\<newline>'' @ ''\<newline>''
                 @ concat (map reporterLine (mStatusReporters m))"
  have body: "bodyTemplate m =
      ''[pull-request]: #'' @ showInt N @ ''\<newline>'' @ ''[commit]: '' @ h @ ''\<newline>'' @ ?rest"
    using assms(1,4,6) by (simp add: bodyTemplate_def htmlEscape_lowerAlnum)
  have sn: "showInt N = digitsOf (nat N)"
    using assms(2) by (simp add: showInt_def)
  have m0: "rolloutMatchAt (bodyTemplate m) = Some (showInt N, h)"
    unfolding body sn
    by (rule rolloutMatchAt_markers) (simp_all add: digitsOf_nonempty digitsOf_digits assms(5,6))
  have find: "rolloutFindSubmatch (bodyTemplate m) = Some (showInt N, h)"
  proof (cases "bodyTemplate m")
    case Nil
    with body show ?thesis by simp
  next
    case (Cons c cs)
    with m0 show ?thesis by simp
  qed
  have atoi: "Atoi (showInt N) = Inr N"
    using assms(2,3) by (rule Atoi_showInt)
  have sync: "fst (SyncIssues t p) = Inr (iState newest \<noteq> ''closed'')
                \<and> pPr (snd (SyncIssues t p)) = Some pr
                \<and> pCommit (snd (SyncIssues t p)) = h
                \<and> pIssue (snd (SyncIssues t p)) = Some newest"
    if "ListByRepo t (issueOptions p) = Inr (newest # others)" "iBody newest = bodyTemplate m"
      "pIssue p = None" "PullRequestsGet t N = Inr pr"
    using that find atoi
    by (simp add: SyncIssues_def rolloutMatchString_def afterLoop_def GetState_def Let_def)
  show ?thesis
    using body find atoi sync by (auto simp: rolloutMatchString_def)
qed

theorem marker_round_trip_witness:
  "rolloutFindSubmatch (bodyTemplate managerR1R2) = Some (''42'', ''abc123'')
   \<and> Atoi ''42'' = Inr 42
   \<and> pCommit (snd (SyncIssues trackerRendered freshPoller)) = ''abc123''
   \<and> pPr (snd (SyncIssues trackerRendered freshPoller)) = Some \<lparr>prNumber = 42\<rparr>"
proof -
  have h1: "prGetNumber (mPullRequest managerR1R2) = 42"
    by (simp add: managerR1R2_def prGetNumber_def)
  have h4: "mCommit managerR1R2 = ''abc123''"
    by (simp add: managerR1R2_def)
  have h6: "list_all isLowerAlnum ''abc123''"
    by (simp add: isLowerAlnum_def)
  have s42: "showInt 42 = ''42''"
    by (simp add: showInt_def digitsOf.simps [of 42] digitsOf_small digitChar_def)
  have l: "ListByRepo trackerRendered (issueOptions freshPoller) = Inr (renderedIssue # [])"
    "iBody renderedIssue = bodyTemplate managerR1R2" "pIssue freshPoller = None"
    "PullRequestsGet trackerRendered 42 = Inr \<lparr>prNumber = 42\<rparr>"
    by (simp_all add: trackerRendered_def renderedIssue_def freshPoller_def)
  note t = marker_round_trip [OF h1 _ _ h4 _ h6, of trackerRendered freshPoller renderedIssue "[]"
      "\<lparr>prNumber = 42\<rparr>"]
  show ?thesis
    using t l s42 by simp
qed

subsection \<open>SourceSync\<close>

lemma labelsMatch_subset: "labelsMatch s ls \<longleftrightarrow> set ls \<subseteq> s"
  by (induction ls) auto

lemma assigneeFound_foldl:
  "foldl (\<lambda>found a. if a = m then True else found) b as \<longleftrightarrow> b \<or> m \<in> set as"
  by (induction as arbitrary: b) auto

lemma assigneeFound_mem: "assigneeFound as m \<longleftrightarrow> m \<in> set as"
  by (simp add: assigneeFound_def assigneeFound_foldl)

lemma candidatePasses_satisfies: "candidatePasses p issue \<longleftrightarrow> satisfiesCriteria p issue"
  by (auto simp: candidatePasses_def satisfiesCriteria_def labelsMatch_subset assigneeFound_mem)

lemma scanLog_entries:
  assumes "\<forall>n. IssuesGet t n = Inr (issueOf n)" and "\<forall>n. PullRequestsGet t n = Inr (prOf n)"
  shows "scanLog t p ls = scanEntries p issueOf prOf (parsedEntries ls)"
proof (induction ls)
  case Nil
  then show ?case by (simp add: parsedEntries_def map_filter_simps)
next
  case (Cons l ls)
  show ?case
  proof (cases "parseLine l")
    case None
    then have "scanLog t p (l # ls) = scanLog t p ls"
      by (auto simp: parseLine_def split: option.splits sum.splits)
    with None Cons show ?thesis
      by (simp add: parsedEntries_def map_filter_simps)
  next
    case (Some e)
    obtain c n where e: "e = (c, n)" by (cases e)
    from Some e obtain ds where ds: "prFindSubmatch l = Some (c, ds)" "Atoi ds = Inr n"
      by (auto simp: parseLine_def split: option.splits sum.splits)
    have "parsedEntries (l # ls) = (c, n) # parsedEntries ls"
      using Some e by (simp add: parsedEntries_def map_filter_simps)
    then show ?thesis
      using ds assms Cons by (simp add: candidatePasses_satisfies Let_def)
  qed
qed





lemma twoMerges_entries:
  "parsedEntries (splitLines twoMergesLog)
     = [(''bbb222'', 2), (''aaa111'', 1)]"
  by (simp add: twoMergesLog_def parsedEntries_def map_filter_simps parseLine_def prFindSubmatch_def mergeAt_def
      isLowerAlnum_def isDigit_def Atoi_def ParseInt_def parseUnsigned_def decimalValue_def
      digitVal_def)




text \<open>
  What a sync call that returns an error leaves behind: the tracked pull request and the
  tracked commit are what they were before the call, and the tracked issue is what it was
  before or the candidate the call had taken up when the error arose.
\<close>

lemma scanLog_error:
  "fst (scanLog t p ls) = Inl e \<Longrightarrow>
     pPr (snd (scanLog t p ls)) = pPr p \<and> pCommit (snd (scanLog t p ls)) = pCommit p
     \<and> (pIssue (snd (scanLog t p ls)) = pIssue p
         \<or> (\<exists>n issue. IssuesGet t n = Inr issue \<and> candidatePasses p issue
               \<and> PullRequestsGet t n = Inl e \<and> pIssue (snd (scanLog t p ls)) = Some issue))"
proof (induction ls)
  case Nil
  then show ?case by simp
next
  case (Cons l ls)
  show ?case
  proof (cases "parseLine l")
    case None
    then have "scanLog t p (l # ls) = scanLog t p ls"
      by (auto simp: parseLine_def split: option.splits sum.splits)
    with Cons show ?thesis by simp
  next
    case (Some x)
    obtain c n where x: "x = (c, n)" by (cases x)
    from Some x obtain ds where ds: "prFindSubmatch l = Some (c, ds)" "Atoi ds = Inr n"
      by (auto simp: parseLine_def split: option.splits sum.splits)
    show ?thesis
    proof (cases "c = pCommit p")
      case True
      with ds Cons.prems show ?thesis by simp
    next
      case False
      show ?thesis
      proof (cases "IssuesGet t n")
        case (Inl err)
        with ds False show ?thesis by simp
      next
        case (Inr issue)
        show ?thesis
        proof (cases "candidatePasses p issue")
          case nopass: False
          with ds False Inr have "scanLog t p (l # ls) = scanLog t p ls" by simp
          with Cons show ?thesis by simp
        next
          case True
          show ?thesis
          proof (cases "PullRequestsGet t n")
            case (Inl err)
            with ds False Inr True Cons.prems have "err = e"
              by (simp add: Let_def)
            with ds False Inr True Inl show ?thesis
              by (auto simp: Let_def)
          next
            case pr: (Inr pr)
            with ds False Inr True Cons.prems show ?thesis
              by (simp add: Let_def)
          qed
        qed
      qed
    qed
  qed
qed

lemma SyncIssues_error:
  "fst (SyncIssues t p) = Inl e \<Longrightarrow>
     pPr (snd (SyncIssues t p)) = pPr p \<and> pCommit (snd (SyncIssues t p)) = pCommit p
     \<and> (pIssue (snd (SyncIssues t p)) = pIssue p
         \<or> (\<exists>newest others. ListByRepo t (issueOptions p) = Inr (newest # others)
               \<and> pIssue (snd (SyncIssues t p)) = Some newest))"
proof (cases "ListByRepo t (issueOptions p)")
  case (Inl x)
  then show ?thesis by (simp add: SyncIssues_def)
next
  case (Inr issues)
  assume err: "fst (SyncIssues t p) = Inl e"
  show ?thesis
  proof (cases issues)
    case Nil
    with Inr show ?thesis by (simp add: SyncIssues_def)
  next
    case (Cons newest others)
    with Inr err show ?thesis
      by (auto simp: SyncIssues_def afterLoop_def Let_def
          split: if_splits option.splits sum.splits prod.splits)
  qed
qed

lemma SyncPRs_error:
  "fst (SyncPRs git t p) = Inl e \<Longrightarrow>
     pPr (snd (SyncPRs git t p)) = pPr p \<and> pCommit (snd (SyncPRs git t p)) = pCommit p
     \<and> (pIssue (snd (SyncPRs git t p)) = pIssue p
         \<or> (\<exists>n issue. IssuesGet t n = Inr issue \<and> candidatePasses p issue
               \<and> PullRequestsGet t n = Inl e \<and> pIssue (snd (SyncPRs git t p)) = Some issue))"
proof (cases "gitFetch git")
  case (Some x)
  then show ?thesis by (simp add: SyncPRs_def)
next
  case None
  assume err: "fst (SyncPRs git t p) = Inl e"
  show ?thesis
  proof (cases "gitLog git")
    case (Inl x)
    with None show ?thesis by (simp add: SyncPRs_def)
  next
    case (Inr out)
    with None have eq: "SyncPRs git t p = scanLog t p (splitLines out)"
      by (simp add: SyncPRs_def)
    show ?thesis
      using scanLog_error [of t p "splitLines out" e] err unfolding eq by simp
  qed
qed

lemma malformed_sync:
  "SyncIssues trackerMalformed pollerTrackingFirst =
     (Inl (ExpectedMarkers 77 ''Rollout #42, commit abc123''),
      pollerTrackingFirst\<lparr>pIssue := Some malformedIssue\<rparr>)"
  by (simp add: SyncIssues_def trackerMalformed_def pollerTrackingFirst_def freshPoller_def
      malformedIssue_def trackingIssue_def issueOfPR_def rolloutMatchString_def rolloutMatchAt_def
      Let_def)

lemma malformed_sync_again:
  "SyncIssues trackerMalformed (pollerTrackingFirst\<lparr>pIssue := Some malformedIssue\<rparr>) =
     (Inr False, pollerTrackingFirst\<lparr>pIssue := Some malformedIssue\<rparr>)"
  by (simp add: SyncIssues_def trackerMalformed_def afterLoop_def GetState_def malformedIssue_def
      trackingIssue_def)

lemma marked_body:
  "rolloutMatchString (iBody markedIssue)
   \<and> rolloutFindSubmatch (iBody markedIssue) = Some (''42'', ''abc123'')
   \<and> Atoi ''42'' = Inr 42"
  by (simp add: markedIssue_def rolloutMatchString_def rolloutMatchAt_def isDigit_def isLowerAlnum_def
      isRegexSpace_def Atoi_def ParseInt_def parseUnsigned_def decimalValue_def digitVal_def)

lemma marked_sync_down:
  "SyncIssues trackerMarkedDown pollerTrackingFirst =
     (Inl badGateway, pollerTrackingFirst\<lparr>pIssue := Some markedIssue\<rparr>)"
proof -
  have "iID markedIssue \<noteq> iID (issueOfPR 1)"
    by (simp add: markedIssue_def trackingIssue_def issueOfPR_def)
  then show ?thesis
    using marked_body
    by (simp add: SyncIssues_def trackerMarkedDown_def trackerMarked_def pollerTrackingFirst_def Let_def)
qed

lemma marked_sync_again:
  "SyncIssues trackerMarked (pollerTrackingFirst\<lparr>pIssue := Some markedIssue\<rparr>) =
     (Inr False, pollerTrackingFirst\<lparr>pIssue := Some markedIssue\<rparr>)"
  by (simp add: SyncIssues_def trackerMarked_def afterLoop_def GetState_def markedIssue_def
      trackingIssue_def)

lemma marked_sync_fresh:
  "SyncIssues trackerMarked pollerTrackingFirst =
     (Inr True,
      pollerTrackingFirst\<lparr>pIssue := Some markedIssue, pPr := Some \<lparr>prNumber = 42\<rparr>,
                          pCommit := ''abc123''\<rparr>)"
proof -
  have "iID markedIssue \<noteq> iID (issueOfPR 1)" "iState markedIssue = ''open''"
    by (simp_all add: markedIssue_def trackingIssue_def issueOfPR_def)
  then show ?thesis
    using marked_body
    by (simp add: SyncIssues_def trackerMarked_def pollerTrackingFirst_def afterLoop_def
        GetState_def Let_def)
qed

lemma pr_sync_down:
  "SyncPRs twoMerges trackerTwoPRsDown freshPoller =
     (Inl badGateway, freshPoller\<lparr>pIssue := Some (issueOfPR 1)\<rparr>)"
proof -
  have ls: "splitLines twoMergesLog =
      [''bbb222 Merge pull request #2 from org/fix'',
       ''aaa111 Merge pull request #1 from org/feature'', []]"
    by (simp add: twoMergesLog_def)
  have m: "prFindSubmatch ''bbb222 Merge pull request #2 from org/fix'' = Some (''bbb222'', ''2'')"
    "prFindSubmatch ''aaa111 Merge pull request #1 from org/feature'' = Some (''aaa111'', ''1'')"
    "Atoi ''2'' = Inr 2" "Atoi ''1'' = Inr 1"
    by (simp_all add: prFindSubmatch_def mergeAt_def isLowerAlnum_def isDigit_def Atoi_def
        ParseInt_def parseUnsigned_def decimalValue_def digitVal_def)
  have c: "\<not> candidatePasses freshPoller (issueOfPR 2)" "candidatePasses freshPoller (issueOfPR 1)"
    by (simp_all add: candidatePasses_satisfies satisfiesCriteria_def freshPoller_def issueOfPR_def)
  have t: "IssuesGet trackerTwoPRsDown = (\<lambda>n. Inr (issueOfPR n))"
    "PullRequestsGet trackerTwoPRsDown = (\<lambda>n. Inl badGateway)"
    by (simp_all add: trackerTwoPRsDown_def trackerTwoPRs_def)
  have p: "pCommit freshPoller = []"
    by (simp add: freshPoller_def)
  show ?thesis
    unfolding SyncPRs_def
    by (simp add: twoMerges_def ls del: scanLog.simps)
      (simp add: m c t p Let_def)
qed

lemma pr_sync_again:
  "SyncPRs twoMerges trackerTwoPRs (freshPoller\<lparr>pIssue := Some (issueOfPR 1)\<rparr>) =
     (Inr True, pollerTrackingFirst)"
proof -
  let ?p = "freshPoller\<lparr>pIssue := Some (issueOfPR 1)\<rparr>"
  have h4: "\<forall>n. IssuesGet trackerTwoPRs n = Inr (issueOfPR n)"
    and h5: "\<forall>n. PullRequestsGet trackerTwoPRs n = Inr ((\<lambda>n. \<lparr>prNumber = n\<rparr>) n)"
    by (simp_all add: trackerTwoPRs_def)
  have "SyncPRs twoMerges trackerTwoPRs ?p
          = scanEntries ?p issueOfPR (\<lambda>n. \<lparr>prNumber = n\<rparr>) [(''bbb222'', 2), (''aaa111'', 1)]"
    using scanLog_entries [OF h4 h5] twoMerges_entries by (simp add: SyncPRs_def twoMerges_def)
  then show ?thesis
    by (simp add: pollerTrackingFirst_def freshPoller_def satisfiesCriteria_def issueOfPR_def)
qed

text \<open>
  C4. A sync call that returns an error has already replaced the tracked issue, so the
  tracked state after the call is not the one before it. With a poller that tracks the
  issue of pull request 1 at commit \<open>aaa111\<close>: when the body of the newest matching issue
  lacks the markers, \<open>SyncIssues\<close> returns the error with that issue as the tracked issue,
  the tracked pull request and commit still those of pull request 1; and the next call,
  comparing the newest issue with the tracked one, reports "unchanged" without an error,
  so the loop of \<open>Run\<close>, which retries after an error, never sees the malformed issue
  again. When the body carries the markers and only the lookup of the pull request
  fails, the call after the tracker has recovered reports "unchanged" as well and the
  poller keeps pull request 1 and commit \<open>aaa111\<close>, where a call from the state before
  the error adopts pull request 42 and commit \<open>abc123\<close> and reports "changed". In PR-log
  mode the call after the same failure adopts the candidate and reports "changed",
  because there the change is detected by the commit, which the failed call left alone.
\<close>

theorem sync_issues_error_replaces_issue:
  "SyncIssues trackerMalformed pollerTrackingFirst =
     (Inl (ExpectedMarkers 77 ''Rollout #42, commit abc123''),
      pollerTrackingFirst\<lparr>pIssue := Some malformedIssue\<rparr>)
   \<and> pIssue pollerTrackingFirst = Some (issueOfPR 1)
   \<and> malformedIssue \<noteq> issueOfPR 1
   \<and> pPr (pollerTrackingFirst\<lparr>pIssue := Some malformedIssue\<rparr>) = Some \<lparr>prNumber = 1\<rparr>
   \<and> pCommit (pollerTrackingFirst\<lparr>pIssue := Some malformedIssue\<rparr>) = ''aaa111''
   \<and> SyncIssues trackerMalformed (pollerTrackingFirst\<lparr>pIssue := Some malformedIssue\<rparr>) =
       (Inr False, pollerTrackingFirst\<lparr>pIssue := Some malformedIssue\<rparr>)
   \<and> SyncIssues trackerMarkedDown pollerTrackingFirst =
       (Inl badGateway, pollerTrackingFirst\<lparr>pIssue := Some markedIssue\<rparr>)
   \<and> SyncIssues trackerMarked (pollerTrackingFirst\<lparr>pIssue := Some markedIssue\<rparr>) =
       (Inr False, pollerTrackingFirst\<lparr>pIssue := Some markedIssue\<rparr>)
   \<and> SyncIssues trackerMarked pollerTrackingFirst =
       (Inr True,
        pollerTrackingFirst\<lparr>pIssue := Some markedIssue, pPr := Some \<lparr>prNumber = 42\<rparr>,
                            pCommit := ''abc123''\<rparr>)
   \<and> SyncPRs twoMerges trackerTwoPRsDown freshPoller =
       (Inl badGateway, freshPoller\<lparr>pIssue := Some (issueOfPR 1)\<rparr>)
   \<and> SyncPRs twoMerges trackerTwoPRs (freshPoller\<lparr>pIssue := Some (issueOfPR 1)\<rparr>) =
       (Inr True, pollerTrackingFirst)"
proof (intro conjI)
  show "SyncIssues trackerMalformed pollerTrackingFirst =
     (Inl (ExpectedMarkers 77 ''Rollout #42, commit abc123''),
      pollerTrackingFirst\<lparr>pIssue := Some malformedIssue\<rparr>)"
    by (rule malformed_sync)
  show "pIssue pollerTrackingFirst = Some (issueOfPR 1)"
    by (simp add: pollerTrackingFirst_def)
  show "malformedIssue \<noteq> issueOfPR 1"
    by (simp add: malformedIssue_def trackingIssue_def issueOfPR_def)
  show "pPr (pollerTrackingFirst\<lparr>pIssue := Some malformedIssue\<rparr>) = Some \<lparr>prNumber = 1\<rparr>"
    by (simp add: pollerTrackingFirst_def)
  show "pCommit (pollerTrackingFirst\<lparr>pIssue := Some malformedIssue\<rparr>) = ''aaa111''"
    by (simp add: pollerTrackingFirst_def)
  show "SyncIssues trackerMalformed (pollerTrackingFirst\<lparr>pIssue := Some malformedIssue\<rparr>) =
       (Inr False, pollerTrackingFirst\<lparr>pIssue := Some malformedIssue\<rparr>)"
    by (rule malformed_sync_again)
  show "SyncIssues trackerMarkedDown pollerTrackingFirst =
       (Inl badGateway, pollerTrackingFirst\<lparr>pIssue := Some markedIssue\<rparr>)"
    by (rule marked_sync_down)
  show "SyncIssues trackerMarked (pollerTrackingFirst\<lparr>pIssue := Some markedIssue\<rparr>) =
       (Inr False, pollerTrackingFirst\<lparr>pIssue := Some markedIssue\<rparr>)"
    by (rule marked_sync_again)
  show "SyncIssues trackerMarked pollerTrackingFirst =
       (Inr True,
        pollerTrackingFirst\<lparr>pIssue := Some markedIssue, pPr := Some \<lparr>prNumber = 42\<rparr>,
                            pCommit := ''abc123''\<rparr>)"
    by (rule marked_sync_fresh)
  show "SyncPRs twoMerges trackerTwoPRsDown freshPoller =
       (Inl badGateway, freshPoller\<lparr>pIssue := Some (issueOfPR 1)\<rparr>)"
    by (rule pr_sync_down)
  show "SyncPRs twoMerges trackerTwoPRs (freshPoller\<lparr>pIssue := Some (issueOfPR 1)\<rparr>) =
       (Inr True, pollerTrackingFirst)"
    by (rule pr_sync_again)
qed

end
